theory Spec2Isabelle
  imports Main
begin

section \<open>procctrl.hpp: suspending and resuming processes\<close>

text \<open>
  The header talks to the operating system only: it reads \<^verbatim>\<open>/proc\<close>, sends signals
  with \<^verbatim>\<open>kill\<close> and writes the \<^verbatim>\<open>cgroup.freeze\<close> node of a control group. The
  embedding makes that system an explicit value of type \<open>os\<close> which every function
  reads and, where the source acts, returns updated. Everything the source does to
  the outside is appended to the field \<open>out\<close>: the signals it sends, the files it
  opens for writing and what it writes to them, and the lines printed to stdout and
  stderr.
  The functions of this first part are those of the \<^verbatim>\<open>#else\<close> (Linux) branches.
\<close>

subsection \<open>The operating system\<close>

type_synonym pid_t = int

datatype signal = SIG0 | SIGSTOP | SIGCONT

datatype errno = EPERM | ESRCH

datatype file_type = DT_UNKNOWN | DT_DIR | DT_REG | DT_LNK

record dirent =
  d_name :: string
  d_type :: file_type

text \<open>A process as \<^verbatim>\<open>kill\<close> sees it: whether the caller may signal it, and whether it
  is stopped.\<close>

record process =
  may_signal :: bool
  stopped :: bool

text \<open>A \<^verbatim>\<open>cgroup.freeze\<close> node: whether the caller can open it for writing, whether
  inserting into the opened stream sets its fail bit, whether the kernel rejects the
  \<^verbatim>\<open>write\<close> the stream issues when it is closed, and the group's state.\<close>

record freeze_node =
  openable :: bool
  insert_fails :: bool
  write_rejected :: bool
  frozen :: bool

text \<open>The lines the source prints, by their format string.\<close>

datatype diag =
    FailedToOpenProc
  | PidNoLongerExists pid_t
  | BelongsToSandboxedApp pid_t bool string
  | FailedToWriteTo string
  | FailedToOpen string
  | NotSandboxedSending pid_t bool
  | ErrorSending pid_t bool

datatype event =
    Stdout diag
  | Stderr diag
  | SysKill pid_t signal "errno option"
  | SysOpenWrite string bool
  | SysWrite string string

record os =
  proc_dir :: "dirent list option"
  comm_file :: "string \<Rightarrow> string option"
  stat_file :: "pid_t \<Rightarrow> string option"
  cgroup_file :: "pid_t \<Rightarrow> string list option"
  cgroup_controllers :: bool
  ptable :: "pid_t \<Rightarrow> process option"
  group_members :: "pid_t \<Rightarrow> pid_t list"
  freeze_nodes :: "string \<Rightarrow> freeze_node option"
  out :: "event list"

text \<open>
  \<^item> \<open>proc_dir\<close>: the entries \<^verbatim>\<open>readdir\<close> yields for \<^verbatim>\<open>/proc\<close>, in its order;
    \<open>None\<close> when \<^verbatim>\<open>opendir\<close> fails.
  \<^item> \<open>comm_file n\<close>: the first line of \<^verbatim>\<open>/proc/n/comm\<close>, \<open>None\<close> when it cannot be
    opened; \<open>stat_file p\<close> and \<open>cgroup_file p\<close> likewise for the files the source
    opens under \<^verbatim>\<open>"/proc/" + std::to_string(pid)\<close> (the first line, and all lines).
  \<^item> \<open>cgroup_controllers\<close>: \<^verbatim>\<open>stat("/sys/fs/cgroup/cgroup.controllers")\<close> succeeds.
  \<^item> \<open>ptable\<close>: the kernel's process table; \<open>group_members p\<close>, for \<open>p \<le> 0\<close>, the
    processes a \<^verbatim>\<open>kill\<close> with that first argument addresses (a process group).
  \<^item> \<open>freeze_nodes\<close>: the control nodes, by path.
\<close>

definition emit :: "event \<Rightarrow> os \<Rightarrow> os" where
  "emit e w = w\<lparr>out := out w @ [e]\<rparr>"

subsection \<open>kill(2)\<close>

definition kill_targets :: "os \<Rightarrow> pid_t \<Rightarrow> pid_t list" where
  "kill_targets w pid =
     filter (\<lambda>t. ptable w t \<noteq> None) (if 0 < pid then [pid] else group_members w pid)"

definition signalable :: "os \<Rightarrow> pid_t \<Rightarrow> bool" where
  "signalable w t = (case ptable w t of None \<Rightarrow> False | Some p \<Rightarrow> may_signal p)"

text \<open>What \<^verbatim>\<open>kill(pid, sig)\<close> returns: \<open>None\<close> for 0, \<open>Some e\<close> for -1 with
  \<^verbatim>\<open>errno\<close> set to \<open>e\<close>.\<close>

definition kill_errno :: "os \<Rightarrow> pid_t \<Rightarrow> errno option" where
  "kill_errno w pid =
     (if kill_targets w pid = [] then Some ESRCH
      else if filter (signalable w) (kill_targets w pid) = [] then Some EPERM
      else None)"

definition deliver :: "signal \<Rightarrow> process \<Rightarrow> process" where
  "deliver sig p =
     (case sig of SIG0 \<Rightarrow> p | SIGSTOP \<Rightarrow> p\<lparr>stopped := True\<rparr> | SIGCONT \<Rightarrow> p\<lparr>stopped := False\<rparr>)"

definition kill :: "pid_t \<Rightarrow> signal \<Rightarrow> os \<Rightarrow> errno option \<times> os" where
  "kill pid sig w =
     (kill_errno w pid,
      emit (SysKill pid sig (kill_errno w pid))
        (w\<lparr>ptable := (\<lambda>t. if t \<in> set (filter (signalable w) (kill_targets w pid))
                             then map_option (deliver sig) (ptable w t)
                             else ptable w t)\<rparr>))"

text \<open>Signal 0 only checks: the probe \<^verbatim>\<open>kill(pid, 0)\<close> is read off \<open>kill_errno\<close> and
  leaves no event.\<close>

subsection \<open>Strings\<close>

text \<open>\<^verbatim>\<open>line.rfind(p, 0) == 0\<close>: the line starts with \<open>p\<close>.\<close>

definition starts_with :: "string \<Rightarrow> string \<Rightarrow> bool" where
  "starts_with s p = (take (length p) s = p)"

text \<open>\<^verbatim>\<open>s.find(sub) != std::string::npos\<close>.\<close>

fun str_contains :: "string \<Rightarrow> string \<Rightarrow> bool" where
  "str_contains [] sub = (sub = [])"
| "str_contains (c # cs) sub = (starts_with (c # cs) sub \<or> str_contains cs sub)"

subsection \<open>is_cgroup_v2_available, get_cgroup_v2_path\<close>

definition is_cgroup_v2_available :: "os \<Rightarrow> bool" where
  "is_cgroup_v2_available w = cgroup_controllers w"

fun first_v2_line :: "string list \<Rightarrow> string" where
  "first_v2_line [] = ''''"
| "first_v2_line (line # rest) =
     (if starts_with line ''0::/'' then ''/sys/fs/cgroup'' @ drop 3 line
      else first_v2_line rest)"

definition get_cgroup_v2_path :: "os \<Rightarrow> pid_t \<Rightarrow> string" where
  "get_cgroup_v2_path w pid =
     (case cgroup_file w pid of None \<Rightarrow> '''' | Some ls \<Rightarrow> first_v2_line ls)"

subsection \<open>process_exists, can_control_process\<close>

definition process_exists :: "os \<Rightarrow> pid_t \<Rightarrow> bool" where
  "process_exists w pid =
     (case kill_errno w pid of None \<Rightarrow> True | Some e \<Rightarrow> e = EPERM)"

definition can_control_process :: "os \<Rightarrow> pid_t \<Rightarrow> bool" where
  "can_control_process w pid =
     (case kill_errno w pid of None \<Rightarrow> True | Some e \<Rightarrow> e = EPERM)"

subsection \<open>set_process_suspended\<close>

definition is_sandboxed_app :: "string \<Rightarrow> bool" where
  "is_sandboxed_app cgroup_path =
     (cgroup_path \<noteq> [] \<and>
      (str_contains cgroup_path ''app-'' \<or> str_contains cgroup_path ''snap.''))"

definition freeze_file_path :: "string \<Rightarrow> string" where
  "freeze_file_path cgroup_path = cgroup_path @ ''/cgroup.freeze''"

text \<open>\<^verbatim>\<open>std::ofstream freeze_file(path)\<close>: the stream is good when the node exists and
  the caller may open it for writing. The control group file system creates no file
  on \<^verbatim>\<open>open\<close>, so a node that is not there cannot be opened.\<close>

definition ofstream_open :: "os \<Rightarrow> string \<Rightarrow> bool" where
  "ofstream_open w path =
     (case freeze_nodes w path of None \<Rightarrow> False | Some n \<Rightarrow> openable n)"

text \<open>\<^verbatim>\<open>freeze_file << data; freeze_file.fail()\<close> on an opened stream. The insertion
  puts the byte into the stream's buffer, and the fail bit tested right after it says
  whether that went well; the kernel has not seen the byte yet.\<close>

definition ofstream_fail :: "os \<Rightarrow> string \<Rightarrow> bool" where
  "ofstream_fail w path =
     (case freeze_nodes w path of None \<Rightarrow> True | Some n \<Rightarrow> insert_fails n)"

definition ofstream_insert :: "string \<Rightarrow> string \<Rightarrow> os \<Rightarrow> os" where
  "ofstream_insert path data w = emit (SysWrite path data) w"

text \<open>The destructor of \<^verbatim>\<open>freeze_file\<close>, which runs when the function returns after a
  good insertion: it flushes the buffer with one \<^verbatim>\<open>write\<close>. The group's state changes
  when the kernel accepts that write, and only then. The return value has been fixed
  before, so nothing in the source learns of a write that is rejected.\<close>

definition write_accepted :: "os \<Rightarrow> string \<Rightarrow> bool" where
  "write_accepted w path =
     (case freeze_nodes w path of None \<Rightarrow> False | Some n \<Rightarrow> \<not> write_rejected n)"

definition ofstream_close :: "string \<Rightarrow> string \<Rightarrow> os \<Rightarrow> os" where
  "ofstream_close path data w =
     (if write_accepted w path
      then w\<lparr>freeze_nodes := (\<lambda>p. if p = path
                 then map_option (\<lambda>n. n\<lparr>frozen := (data = ''1'')\<rparr>) (freeze_nodes w p)
                 else freeze_nodes w p)\<rparr>
      else w)"

definition set_process_suspended :: "pid_t \<Rightarrow> bool \<Rightarrow> os \<Rightarrow> bool \<times> os" where
  "set_process_suspended pid suspend w =
     (if \<not> process_exists w pid then (False, emit (Stderr (PidNoLongerExists pid)) w)
      else
        let cgroup_path = get_cgroup_v2_path w pid;
            signal_to_send = (if suspend then SIGSTOP else SIGCONT)
        in
          if is_sandboxed_app cgroup_path \<and> is_cgroup_v2_available w then
            let w1 = emit (Stdout (BelongsToSandboxedApp pid suspend cgroup_path)) w;
                path = freeze_file_path cgroup_path;
                w2 = emit (SysOpenWrite path (ofstream_open w1 path)) w1
            in
              if ofstream_open w1 path then
                let w3 = ofstream_insert path (if suspend then ''1'' else ''0'') w2 in
                  if ofstream_fail w2 path
                  then (False, emit (Stderr (FailedToWriteTo path)) w3)
                  else (True, ofstream_close path (if suspend then ''1'' else ''0'') w3)
              else (False, emit (Stderr (FailedToOpen path)) w2)
          else
            let w1 = emit (Stdout (NotSandboxedSending pid suspend)) w;
                (r, w2) = kill pid signal_to_send w1
            in
              if r \<noteq> None then (False, emit (Stderr (ErrorSending pid suspend)) w2)
              else (True, w2))"

subsection \<open>Parsing numbers: strtol and the stream extractors\<close>

definition isspace :: "char \<Rightarrow> bool" where
  "isspace c = ((of_char c :: nat) = 32 \<or> (9 \<le> (of_char c :: nat) \<and> (of_char c :: nat) \<le> 13))"

definition isdigit :: "char \<Rightarrow> bool" where
  "isdigit c = (48 \<le> (of_char c :: nat) \<and> (of_char c :: nat) \<le> 57)"

fun take_digits :: "int \<Rightarrow> string \<Rightarrow> int \<times> string" where
  "take_digits acc [] = (acc, [])"
| "take_digits acc (c # cs) =
     (if isdigit c then take_digits (acc * 10 + (int (of_char c) - 48)) cs
      else (acc, c # cs))"

text \<open>An optional sign: whether it is a minus, and the text after it.\<close>

definition take_sign :: "string \<Rightarrow> bool \<times> string" where
  "take_sign s =
     (case s of
        [] \<Rightarrow> (False, s)
      | c # cs \<Rightarrow>
          if c = CHR ''-'' then (True, cs)
          else if c = CHR ''+'' then (False, cs)
          else (False, s))"

text \<open>\<^verbatim>\<open>strtol(s, &endptr, 10)\<close>: the value (a 64-bit \<^verbatim>\<open>long\<close>, saturating) and the
  text \<^verbatim>\<open>endptr\<close> points at. With no digit to convert the value is 0 and
  \<^verbatim>\<open>endptr\<close> is the start of \<open>s\<close>.\<close>

definition strtol :: "string \<Rightarrow> int \<times> string" where
  "strtol s =
     (let (neg, body) = take_sign (dropWhile isspace s) in
        case body of
          [] \<Rightarrow> (0, s)
        | c # _ \<Rightarrow>
            if \<not> isdigit c then (0, s)
            else
              let (v, rest) = take_digits 0 body;
                  sv = (if neg then - v else v)
              in (max (- (2 ^ 63)) (min (2 ^ 63 - 1) sv), rest))"

text \<open>The conversion of the \<^verbatim>\<open>long\<close> to \<^verbatim>\<open>pid_t\<close>, a 32-bit \<^verbatim>\<open>int\<close>.\<close>

definition to_pid_t :: "int \<Rightarrow> pid_t" where
  "to_pid_t v = (v + 2 ^ 31) mod 2 ^ 32 - 2 ^ 31"

text \<open>\<^verbatim>\<open>iss >> state\<close> for a \<^verbatim>\<open>char\<close>: skips white space, fails at the end.\<close>

definition extract_char :: "string \<Rightarrow> (char \<times> string) option" where
  "extract_char s =
     (case dropWhile isspace s of [] \<Rightarrow> None | c # cs \<Rightarrow> Some (c, cs))"

text \<open>\<^verbatim>\<open>iss >> ppid\<close> for a \<^verbatim>\<open>pid_t\<close>: skips white space, reads a sign and digits;
  fails with no digit, and on a value that does not fit the 32-bit \<^verbatim>\<open>int\<close>.\<close>

definition extract_int :: "string \<Rightarrow> (int \<times> string) option" where
  "extract_int s =
     (let (neg, body) = take_sign (dropWhile isspace s) in
        case body of
          [] \<Rightarrow> None
        | c # _ \<Rightarrow>
            if \<not> isdigit c then None
            else
              let (v, rest) = take_digits 0 body;
                  sv = (if neg then - v else v)
              in if sv < - (2 ^ 31) \<or> 2 ^ 31 - 1 < sv then None else Some (sv, rest))"

text \<open>\<^verbatim>\<open>line.rfind(c)\<close>: the last position of \<open>c\<close>, \<open>None\<close> for \<^verbatim>\<open>npos\<close>.\<close>

fun rfind_char :: "string \<Rightarrow> char \<Rightarrow> nat option" where
  "rfind_char [] c = None"
| "rfind_char (x # xs) c =
     (case rfind_char xs c of
        Some i \<Rightarrow> Some (Suc i)
      | None \<Rightarrow> if x = c then Some 0 else None)"

subsection \<open>find_all_processes_by_name\<close>

fun scan_by_name :: "os \<Rightarrow> string \<Rightarrow> dirent list \<Rightarrow> pid_t list" where
  "scan_by_name w exe_name [] = []"
| "scan_by_name w exe_name (entry # rest) =
     (if d_type entry \<noteq> DT_UNKNOWN \<and> d_type entry \<noteq> DT_DIR
      then scan_by_name w exe_name rest
      else
        let (v, endptr) = strtol (d_name entry); pid = to_pid_t v in
          if endptr \<noteq> [] then scan_by_name w exe_name rest
          else
            case comm_file w (d_name entry) of
              None \<Rightarrow> scan_by_name w exe_name rest
            | Some pname \<Rightarrow>
                if pname = exe_name then pid # scan_by_name w exe_name rest
                else scan_by_name w exe_name rest)"

definition find_all_processes_by_name :: "string \<Rightarrow> os \<Rightarrow> pid_t list \<times> os" where
  "find_all_processes_by_name exe_name w =
     (case proc_dir w of
        None \<Rightarrow> ([], emit (Stderr FailedToOpenProc) w)
      | Some entries \<Rightarrow> (scan_by_name w exe_name entries, w))"

subsection \<open>get_parent_pid\<close>

definition get_parent_pid :: "os \<Rightarrow> pid_t \<Rightarrow> pid_t" where
  "get_parent_pid w pid =
     (case stat_file w pid of
        None \<Rightarrow> - 1
      | Some line \<Rightarrow>
          (case rfind_char line CHR '')'' of
             None \<Rightarrow> - 1
           | Some pos \<Rightarrow>
               (case extract_char (drop (pos + 1) line) of
                  None \<Rightarrow> - 1
                | Some (state, r) \<Rightarrow>
                    (case extract_int r of None \<Rightarrow> - 1 | Some (ppid, r') \<Rightarrow> ppid))))"

subsection \<open>suspend_processes_by_name, resume_processes_by_name\<close>

text \<open>The two functions have the same body but for the flag they pass to
  \<open>set_process_suspended\<close>; \<open>by_name_loop\<close> is that body's \<^verbatim>\<open>for\<close> loop, with
  \<^verbatim>\<open>handled_cgroups\<close> and \<^verbatim>\<open>success_count\<close> as arguments.\<close>

fun by_name_loop :: "bool \<Rightarrow> pid_t list \<Rightarrow> string set \<Rightarrow> int \<Rightarrow> os \<Rightarrow> int \<times> os" where
  "by_name_loop suspend [] handled_cgroups success_count w = (success_count, w)"
| "by_name_loop suspend (pid # pids) handled_cgroups success_count w =
     (let cgroup_path = get_cgroup_v2_path w pid in
        if cgroup_path \<noteq> [] \<and> cgroup_path \<in> handled_cgroups
        then by_name_loop suspend pids handled_cgroups success_count w
        else
          let handled' = (if cgroup_path \<noteq> [] then insert cgroup_path handled_cgroups
                          else handled_cgroups);
              (ok, w') = set_process_suspended pid suspend w
          in by_name_loop suspend pids handled'
               (if ok then success_count + 1 else success_count) w')"

definition suspend_processes_by_name :: "string \<Rightarrow> os \<Rightarrow> int \<times> os" where
  "suspend_processes_by_name exe_name w =
     (let (pids, w1) = find_all_processes_by_name exe_name w
      in by_name_loop True pids {} 0 w1)"

definition resume_processes_by_name :: "string \<Rightarrow> os \<Rightarrow> int \<times> os" where
  "resume_processes_by_name exe_name w =
     (let (pids, w1) = find_all_processes_by_name exe_name w
      in by_name_loop False pids {} 0 w1)"

subsection \<open>get_process_tree\<close>

text \<open>The inner loop over \<^verbatim>\<open>/proc\<close>: the entries whose parent is \<open>current\<close>, in the
  directory's order.\<close>

fun scan_children :: "os \<Rightarrow> pid_t \<Rightarrow> dirent list \<Rightarrow> pid_t list" where
  "scan_children w current [] = []"
| "scan_children w current (entry # rest) =
     (if d_type entry \<noteq> DT_UNKNOWN \<and> d_type entry \<noteq> DT_DIR
      then scan_children w current rest
      else
        let (v, endptr) = strtol (d_name entry); pid = to_pid_t v in
          if endptr \<noteq> [] then scan_children w current rest
          else if get_parent_pid w pid = current then pid # scan_children w current rest
          else scan_children w current rest)"

definition children_of :: "os \<Rightarrow> pid_t \<Rightarrow> pid_t list" where
  "children_of w current =
     (case proc_dir w of None \<Rightarrow> [] | Some entries \<Rightarrow> scan_children w current entries)"

text \<open>The outer \<^verbatim>\<open>while (!to_check.empty())\<close>: it pops the back of \<^verbatim>\<open>to_check\<close> and
  pushes every child found onto both vectors. The loop has no bound of its own, so
  not returning is the value \<open>None\<close>. \<open>found\<close> is the inner scan, which is the only
  part of the loop that differs between the two platforms. The source scans the
  processes anew on every round; here every round sees the same system.\<close>

partial_function (option) tree_loop ::
  "('p \<Rightarrow> 'p list) \<Rightarrow> 'p list \<Rightarrow> 'p list \<Rightarrow> 'p list option" where
  "tree_loop found tree to_check =
     (if to_check = [] then Some tree
      else tree_loop found (tree @ found (last to_check))
             (butlast to_check @ found (last to_check)))"

definition get_process_tree :: "os \<Rightarrow> pid_t \<Rightarrow> pid_t list option" where
  "get_process_tree w root_pid = tree_loop (children_of w) [root_pid] [root_pid]"

section \<open>The Windows branches\<close>

text \<open>
  Under \<^verbatim>\<open>_WIN32\<close> the header works on a Toolhelp snapshot of the processes, on
  handles from \<^verbatim>\<open>OpenProcess\<close> and on the two entry points of \<^verbatim>\<open>ntdll\<close> it looks up
  at first use. \<^verbatim>\<open>pid_t\<close> is a \<^verbatim>\<open>DWORD\<close> there; process identifiers are only compared,
  so they are natural numbers. The functions carry the suffix \<open>_win32\<close>.
\<close>

record PROCESSENTRY32W =
  th32ProcessID :: nat
  th32ParentProcessID :: nat
  szExeFile :: string

datatype access = PROCESS_QUERY_LIMITED_INFORMATION | PROCESS_SUSPEND_RESUME

record win_process =
  grants :: "access \<Rightarrow> bool"
  suspend_count :: nat

datatype win_diag =
    WNoLongerExists nat
  | FailedToLoadNT
  | FailedToOpenProcess nat
  | Suspended nat
  | Resumed nat

datatype win_event =
    WStdout win_diag
  | WStderr win_diag
  | GetModuleHandleA string
  | GetProcAddress string
  | AdjustTokenPrivileges
  | NtCall bool nat int

record win_os =
  snapshot :: "PROCESSENTRY32W list option"
  wtable :: "nat \<Rightarrow> win_process option"
  ntdll_loaded :: bool
  ntdll_exports :: "string \<Rightarrow> bool"
  token_opens :: bool
  privilege_known :: bool
  adjust_succeeds :: bool
  nt_status :: "bool \<Rightarrow> nat \<Rightarrow> int"
  initialized :: bool
  g_pfnNtSuspendProcess :: bool
  g_pfnNtResumeProcess :: bool
  debug_privilege :: bool
  wout :: "win_event list"

text \<open>
  \<^item> \<open>snapshot\<close>: the entries \<^verbatim>\<open>Process32FirstW\<close> and \<^verbatim>\<open>Process32NextW\<close> yield, with the
    executable's name as converted to a narrow string; \<open>None\<close> when
    \<^verbatim>\<open>CreateToolhelp32Snapshot\<close> returns \<^verbatim>\<open>INVALID_HANDLE_VALUE\<close>.
  \<^item> \<open>wtable\<close>: the processes, with the access rights \<^verbatim>\<open>OpenProcess\<close> grants the caller
    and the suspend count.
  \<^item> \<open>ntdll_loaded\<close>, \<open>ntdll_exports\<close>: what \<^verbatim>\<open>GetModuleHandleA("ntdll")\<close> and
    \<^verbatim>\<open>GetProcAddress\<close> find; \<open>token_opens\<close>, \<open>privilege_known\<close>, \<open>adjust_succeeds\<close>:
    whether the three calls of \<^verbatim>\<open>enable_debug_privilege\<close> succeed.
  \<^item> \<open>nt_status suspend pid\<close>: the status \<^verbatim>\<open>NtSuspendProcess\<close> (\<open>suspend\<close>) or
    \<^verbatim>\<open>NtResumeProcess\<close> returns on a handle of that process.
  \<^item> \<open>initialized\<close> is the function-local static of \<^verbatim>\<open>init_nt_functions\<close>, the two
    \<open>g_pfn\<close> fields say whether the global pointers are non-null.
\<close>

definition wemit :: "win_event \<Rightarrow> win_os \<Rightarrow> win_os" where
  "wemit e ws = ws\<lparr>wout := wout ws @ [e]\<rparr>"

definition OpenProcess :: "win_os \<Rightarrow> access \<Rightarrow> nat \<Rightarrow> bool" where
  "OpenProcess ws a pid = (case wtable ws pid of None \<Rightarrow> False | Some p \<Rightarrow> grants p a)"

definition enable_debug_privilege :: "win_os \<Rightarrow> bool \<times> win_os" where
  "enable_debug_privilege ws =
     (if \<not> token_opens ws then (False, ws)
      else if \<not> privilege_known ws then (False, ws)
      else (adjust_succeeds ws,
            wemit AdjustTokenPrivileges
              (ws\<lparr>debug_privilege := debug_privilege ws \<or> adjust_succeeds ws\<rparr>)))"

text \<open>The body of \<^verbatim>\<open>if (!initialized)\<close>, statement by statement.\<close>

definition lookup_nt :: "win_os \<Rightarrow> win_os" where
  "lookup_nt ws =
     (let ws1 = wemit (GetModuleHandleA ''ntdll'') ws in
        if ntdll_loaded ws1 then
          wemit (GetProcAddress ''NtResumeProcess'')
            (wemit (GetProcAddress ''NtSuspendProcess'')
               (ws1\<lparr>g_pfnNtSuspendProcess := ntdll_exports ws1 ''NtSuspendProcess'',
                    g_pfnNtResumeProcess := ntdll_exports ws1 ''NtResumeProcess''\<rparr>))
        else ws1)"

definition init_nt_functions :: "win_os \<Rightarrow> win_os" where
  "init_nt_functions ws =
     (if \<not> initialized ws then
        (snd (enable_debug_privilege (lookup_nt ws)))\<lparr>initialized := True\<rparr>
      else ws)"

definition process_exists_win32 :: "win_os \<Rightarrow> nat \<Rightarrow> bool" where
  "process_exists_win32 ws pid = OpenProcess ws PROCESS_QUERY_LIMITED_INFORMATION pid"

definition can_control_process_win32 :: "win_os \<Rightarrow> nat \<Rightarrow> bool" where
  "can_control_process_win32 ws pid = OpenProcess ws PROCESS_SUSPEND_RESUME pid"

fun scan_by_name_win32 :: "string \<Rightarrow> PROCESSENTRY32W list \<Rightarrow> nat list" where
  "scan_by_name_win32 exe_name [] = []"
| "scan_by_name_win32 exe_name (pe32 # rest) =
     (if exe_name = szExeFile pe32 then th32ProcessID pe32 # scan_by_name_win32 exe_name rest
      else scan_by_name_win32 exe_name rest)"

definition find_all_processes_by_name_win32 :: "string \<Rightarrow> win_os \<Rightarrow> nat list" where
  "find_all_processes_by_name_win32 exe_name ws =
     (case snapshot ws of None \<Rightarrow> [] | Some entries \<Rightarrow> scan_by_name_win32 exe_name entries)"

text \<open>A call through one of the two pointers: the status, and its effect on the
  suspend count when the status is 0.\<close>

definition nt_call :: "bool \<Rightarrow> nat \<Rightarrow> win_os \<Rightarrow> int \<times> win_os" where
  "nt_call suspend pid ws =
     (let status = nt_status ws suspend pid in
        (status,
         wemit (NtCall suspend pid status)
           (if status = 0 then
              ws\<lparr>wtable := (wtable ws)(pid :=
                    map_option
                      (\<lambda>p. p\<lparr>suspend_count :=
                              (if suspend then suspend_count p + 1 else suspend_count p - 1)\<rparr>)
                      (wtable ws pid))\<rparr>
            else ws)))"

definition set_process_suspended_win32 :: "nat \<Rightarrow> bool \<Rightarrow> win_os \<Rightarrow> bool \<times> win_os" where
  "set_process_suspended_win32 pid suspend ws =
     (if \<not> process_exists_win32 ws pid then (False, wemit (WStderr (WNoLongerExists pid)) ws)
      else
        let ws1 = init_nt_functions ws in
          if \<not> g_pfnNtSuspendProcess ws1 \<or> \<not> g_pfnNtResumeProcess ws1
          then (False, wemit (WStderr FailedToLoadNT) ws1)
          else if \<not> OpenProcess ws1 PROCESS_SUSPEND_RESUME pid
          then (False, wemit (WStderr (FailedToOpenProcess pid)) ws1)
          else
            let (status, ws2) = nt_call suspend pid ws1;
                ws3 = wemit (WStdout (if suspend then Suspended pid else Resumed pid)) ws2
            in (status = 0, ws3))"

fun by_name_loop_win32 :: "bool \<Rightarrow> nat list \<Rightarrow> int \<Rightarrow> win_os \<Rightarrow> int \<times> win_os" where
  "by_name_loop_win32 suspend [] success_count ws = (success_count, ws)"
| "by_name_loop_win32 suspend (pid # pids) success_count ws =
     (let (ok, ws') = set_process_suspended_win32 pid suspend ws
      in by_name_loop_win32 suspend pids (if ok then success_count + 1 else success_count) ws')"

definition suspend_processes_by_name_win32 :: "string \<Rightarrow> win_os \<Rightarrow> int \<times> win_os" where
  "suspend_processes_by_name_win32 exe_name ws =
     by_name_loop_win32 True (find_all_processes_by_name_win32 exe_name ws) 0 ws"

definition resume_processes_by_name_win32 :: "string \<Rightarrow> win_os \<Rightarrow> int \<times> win_os" where
  "resume_processes_by_name_win32 exe_name ws =
     by_name_loop_win32 False (find_all_processes_by_name_win32 exe_name ws) 0 ws"

fun scan_children_win32 :: "nat \<Rightarrow> PROCESSENTRY32W list \<Rightarrow> nat list" where
  "scan_children_win32 current [] = []"
| "scan_children_win32 current (pe32 # rest) =
     (if th32ParentProcessID pe32 = current
      then th32ProcessID pe32 # scan_children_win32 current rest
      else scan_children_win32 current rest)"

definition children_of_win32 :: "win_os \<Rightarrow> nat \<Rightarrow> nat list" where
  "children_of_win32 ws current =
     (case snapshot ws of None \<Rightarrow> [] | Some entries \<Rightarrow> scan_children_win32 current entries)"

definition get_process_tree_win32 :: "win_os \<Rightarrow> nat \<Rightarrow> nat list option" where
  "get_process_tree_win32 ws root_pid =
     tree_loop (children_of_win32 ws) [root_pid] [root_pid]"

subsection \<open>init_nt_functions run by several threads\<close>

text \<open>
  \<^verbatim>\<open>init_nt_functions\<close> takes no lock, so threads that call it at the same time
  interleave its statements. A thread is at one of five places: before the test of
  \<^verbatim>\<open>initialized\<close>, before the lookups, before \<^verbatim>\<open>enable_debug_privilege\<close>, before the
  assignment \<^verbatim>\<open>initialized = true\<close>, or returned. \<open>thread_step\<close> runs the next statement
  of one thread; a schedule names the thread that moves at each step.
\<close>

datatype place = AtTest | AtLookup | AtPrivilege | AtAssign | Returned

fun thread_step :: "place \<Rightarrow> win_os \<Rightarrow> place \<times> win_os" where
  "thread_step AtTest ws = (if \<not> initialized ws then (AtLookup, ws) else (Returned, ws))"
| "thread_step AtLookup ws = (AtPrivilege, lookup_nt ws)"
| "thread_step AtPrivilege ws = (AtAssign, snd (enable_debug_privilege ws))"
| "thread_step AtAssign ws = (Returned, ws\<lparr>initialized := True\<rparr>)"
| "thread_step Returned ws = (Returned, ws)"

fun run_schedule :: "nat list \<Rightarrow> place list \<times> win_os \<Rightarrow> place list \<times> win_os" where
  "run_schedule [] conf = conf"
| "run_schedule (i # sched) (places, ws) =
     (if i < length places
      then let (pl, ws') = thread_step (places ! i) ws
           in run_schedule sched (places[i := pl], ws')
      else run_schedule sched (places, ws))"

text \<open>How often the entry points have been looked up.\<close>

definition resolutions :: "win_os \<Rightarrow> nat" where
  "resolutions ws = length (filter (\<lambda>e. e = GetModuleHandleA ''ntdll'') (wout ws))"

section \<open>Notions the properties are stated with\<close>

subsection \<open>Reading the trace\<close>

fun is_kill :: "event \<Rightarrow> bool" where
  "is_kill (SysKill pid sig r) = True"
| "is_kill e = False"

fun is_write :: "event \<Rightarrow> bool" where
  "is_write (SysWrite path data) = True"
| "is_write e = False"

fun is_open :: "event \<Rightarrow> bool" where
  "is_open (SysOpenWrite path ok) = True"
| "is_open e = False"

subsection \<open>The state of a process\<close>

text \<open>A process is suspended when it is stopped, or when the control group the header
  finds for it is frozen; it is running otherwise.\<close>

definition is_stopped :: "os \<Rightarrow> pid_t \<Rightarrow> bool" where
  "is_stopped w pid = (case ptable w pid of None \<Rightarrow> False | Some p \<Rightarrow> stopped p)"

definition is_frozen :: "os \<Rightarrow> string \<Rightarrow> bool" where
  "is_frozen w cgroup_path =
     (case freeze_nodes w (freeze_file_path cgroup_path) of
        None \<Rightarrow> False
      | Some n \<Rightarrow> frozen n)"

definition is_suspended :: "os \<Rightarrow> pid_t \<Rightarrow> bool" where
  "is_suspended w pid = (is_stopped w pid \<or> is_frozen w (get_cgroup_v2_path w pid))"

text \<open>Under Windows a process is suspended when its suspend count is not zero.\<close>

definition is_suspended_win32 :: "win_os \<Rightarrow> nat \<Rightarrow> bool" where
  "is_suspended_win32 ws pid =
     (case wtable ws pid of None \<Rightarrow> False | Some p \<Rightarrow> 0 < suspend_count p)"

text \<open>The two entry points are there for the next call: they have been looked up and
  found, or the lookup is still to come and \<^verbatim>\<open>ntdll\<close> is loaded and exports both.\<close>

definition nt_functions_available :: "win_os \<Rightarrow> bool" where
  "nt_functions_available ws =
     (if initialized ws then g_pfnNtSuspendProcess ws \<and> g_pfnNtResumeProcess ws
      else ntdll_loaded ws \<and> ntdll_exports ws ''NtSuspendProcess'' \<and>
           ntdll_exports ws ''NtResumeProcess'')"

subsection \<open>The units of a batch\<close>

text \<open>
  The batch functions act on units: the first matched process of each control group
  path, and every matched process without one. \<open>batch_units\<close> picks them from the
  matched processes: it keeps the first, drops from the rest the processes that share
  its (non-empty) path, and goes on. \<open>attempt_all\<close> calls \<open>set_process_suspended\<close> on
  every unit in turn, whatever the earlier calls returned, and collects the outcomes.
\<close>

fun batch_units :: "os \<Rightarrow> pid_t list \<Rightarrow> pid_t list" where
  "batch_units w [] = []"
| "batch_units w (p # ps) =
     p # batch_units w
           (filter (\<lambda>q. get_cgroup_v2_path w q = [] \<or>
                        get_cgroup_v2_path w q \<noteq> get_cgroup_v2_path w p) ps)"

fun attempt_all :: "bool \<Rightarrow> pid_t list \<Rightarrow> os \<Rightarrow> bool list \<times> os" where
  "attempt_all suspend [] w = ([], w)"
| "attempt_all suspend (u # us) w =
     (let (ok, w1) = set_process_suspended u suspend w;
          (oks, w2) = attempt_all suspend us w1
      in (ok # oks, w2))"

subsection \<open>The processes a scan of /proc accepts\<close>

fun listed_pids :: "dirent list \<Rightarrow> pid_t list" where
  "listed_pids [] = []"
| "listed_pids (entry # rest) =
     (if d_type entry \<noteq> DT_UNKNOWN \<and> d_type entry \<noteq> DT_DIR then listed_pids rest
      else if snd (strtol (d_name entry)) \<noteq> [] then listed_pids rest
      else to_pid_t (fst (strtol (d_name entry))) # listed_pids rest)"

text \<open>Every process a scan sees, on either platform, and the batch of the Windows
  branch, which has no units but the matched processes themselves.\<close>

definition proc_listing :: "os \<Rightarrow> pid_t list" where
  "proc_listing w = (case proc_dir w of None \<Rightarrow> [] | Some entries \<Rightarrow> listed_pids entries)"

definition snapshot_entries :: "win_os \<Rightarrow> PROCESSENTRY32W list" where
  "snapshot_entries ws = (case snapshot ws of None \<Rightarrow> [] | Some entries \<Rightarrow> entries)"

fun attempt_all_win32 :: "bool \<Rightarrow> nat list \<Rightarrow> win_os \<Rightarrow> bool list \<times> win_os" where
  "attempt_all_win32 suspend [] ws = ([], ws)"
| "attempt_all_win32 suspend (u # us) ws =
     (let (ok, ws1) = set_process_suspended_win32 u suspend ws;
          (oks, ws2) = attempt_all_win32 suspend us ws1
      in (ok # oks, ws2))"

subsection \<open>A concrete system\<close>

text \<open>
  Init, two processes \<^verbatim>\<open>worker\<close> (101 and its child 205) and a \<^verbatim>\<open>helper\<close> (206,
  child of 205) in the control group \<^verbatim>\<open>/sandbox/app-1\<close>, one process \<^verbatim>\<open>solo\<close> (310)
  whose cgroup file has no cgroup v2 line, and two processes \<^verbatim>\<open>pair\<close> (410, 411) that
  share the session scope, which is no sandboxed group. Of three processes \<^verbatim>\<open>job\<close> without a control group file, 510
  belongs to another user, 511 is the caller's, and 512 is listed in \<^verbatim>\<open>/proc\<close> but has
  left the process table. The caller may signal neither init nor 510.
\<close>

definition demo_comm :: "string \<Rightarrow> string option" where
  "demo_comm n =
     (if n = ''1'' then Some ''systemd''
      else if n = ''101'' \<or> n = ''205'' then Some ''worker''
      else if n = ''206'' then Some ''helper''
      else if n = ''310'' then Some ''solo''
      else if n = ''410'' \<or> n = ''411'' then Some ''pair''
      else if n = ''510'' \<or> n = ''511'' \<or> n = ''512'' then Some ''job''
      else None)"

definition demo_stat :: "pid_t \<Rightarrow> string option" where
  "demo_stat p =
     (if p = 1 then Some ''1 (systemd) S 0 1 1 0''
      else if p = 101 then Some ''101 (worker) S 1 101 101 0''
      else if p = 205 then Some ''205 (worker) S 101 101 101 0''
      else if p = 206 then Some ''206 (helper) S 205 101 101 0''
      else if p = 310 then Some ''310 (solo) S 1 310 310 0''
      else if p = 410 then Some ''410 (pair) S 1 410 410 0''
      else if p = 411 then Some ''411 (pair) R 1 410 410 0''
      else if p = 510 then Some ''510 (job) S 1 510 510 0''
      else if p = 511 then Some ''511 (job) S 1 511 511 0''
      else if p = 512 then Some ''512 (job) S 511 511 511 0''
      else None)"

definition demo_cgroup :: "pid_t \<Rightarrow> string list option" where
  "demo_cgroup p =
     (if p = 1 then Some [''0::/init.scope'']
      else if p = 101 \<or> p = 205 \<or> p = 206 then Some [''0::/sandbox/app-1'']
      else if p = 310 then Some [''2:cpu:/'', ''1:name=systemd:/user.slice'']
      else if p = 410 \<or> p = 411 then Some [''0::/user.slice/session-2.scope'']
      else None)"

definition demo_ptable :: "pid_t \<Rightarrow> process option" where
  "demo_ptable p =
     (if p = 1 then Some \<lparr>may_signal = False, stopped = False\<rparr>
      else if p = 101 \<or> p = 205 \<or> p = 206 \<or> p = 310 \<or> p = 410 \<or> p = 411 \<or> p = 511
      then Some \<lparr>may_signal = True, stopped = False\<rparr>
      else if p = 510 then Some \<lparr>may_signal = False, stopped = False\<rparr>
      else None)"

definition demo_nodes :: "string \<Rightarrow> freeze_node option" where
  "demo_nodes path =
     (if path = ''/sys/fs/cgroup/sandbox/app-1/cgroup.freeze''
      then Some \<lparr>openable = True, insert_fails = False, write_rejected = False,
                 frozen = False\<rparr>
      else None)"

definition demo_dir :: "dirent list" where
  "demo_dir =
     [\<lparr>d_name = ''.'', d_type = DT_DIR\<rparr>,
      \<lparr>d_name = ''1'', d_type = DT_DIR\<rparr>,
      \<lparr>d_name = ''101'', d_type = DT_DIR\<rparr>,
      \<lparr>d_name = ''self'', d_type = DT_LNK\<rparr>,
      \<lparr>d_name = ''205'', d_type = DT_DIR\<rparr>,
      \<lparr>d_name = ''206'', d_type = DT_DIR\<rparr>,
      \<lparr>d_name = ''310'', d_type = DT_DIR\<rparr>,
      \<lparr>d_name = ''410'', d_type = DT_DIR\<rparr>,
      \<lparr>d_name = ''411'', d_type = DT_UNKNOWN\<rparr>,
      \<lparr>d_name = ''510'', d_type = DT_DIR\<rparr>,
      \<lparr>d_name = ''511'', d_type = DT_DIR\<rparr>,
      \<lparr>d_name = ''512'', d_type = DT_DIR\<rparr>,
      \<lparr>d_name = ''cpuinfo'', d_type = DT_REG\<rparr>]"

definition demo :: os where
  "demo =
     \<lparr>proc_dir = Some demo_dir,
      comm_file = demo_comm,
      stat_file = demo_stat,
      cgroup_file = demo_cgroup,
      cgroup_controllers = True,
      ptable = demo_ptable,
      group_members = (\<lambda>p. []),
      freeze_nodes = demo_nodes,
      out = []\<rparr>"

text \<open>
  Three variants of that system. In \<open>demo_session\<close> the process group that \<^verbatim>\<open>kill\<close>
  addresses with a first argument of -1 is given: every process but init. In
  \<open>demo_denied\<close> the first of the two processes \<^verbatim>\<open>pair\<close>, 410, belongs to another
  user. In \<open>demo_locked\<close> the group \<^verbatim>\<open>/sandbox/app-1\<close> has been set up and frozen by
  the administrator: the caller may signal the group's processes as before, but cannot
  open its \<^verbatim>\<open>cgroup.freeze\<close>.
\<close>

definition demo_session :: os where
  "demo_session =
     demo\<lparr>group_members :=
            (\<lambda>p. if p = - 1 then [101, 205, 206, 310, 410, 411, 510, 511] else [])\<rparr>"

definition demo_denied :: os where
  "demo_denied =
     demo\<lparr>ptable := (\<lambda>p. if p = 410 then Some \<lparr>may_signal = False, stopped = False\<rparr>
                          else demo_ptable p)\<rparr>"

definition demo_locked :: os where
  "demo_locked =
     demo\<lparr>freeze_nodes :=
            (\<lambda>path. map_option (\<lambda>n. n\<lparr>openable := False, frozen := True\<rparr>) (demo_nodes path))\<rparr>"

text \<open>A rank for \<open>demo\<close> under which every listed process ranks below its parent.\<close>

definition demo_rank :: "pid_t \<Rightarrow> nat" where
  "demo_rank p =
     (if p = 0 then 5 else if p = 1 then 4
      else if p = 205 \<or> p = 512 then 2
      else if p = 206 then 1
      else 3)"

text \<open>
  A Windows system: the idle process, which the snapshot lists with itself as parent,
  the system process, and three processes \<^verbatim>\<open>notepad.exe\<close>: the caller may query 1000
  but not control it, may control 1200, and 1300 has exited since the snapshot.
  \<^verbatim>\<open>ntdll\<close> is loaded and exports both entry points, and nothing has been initialised
  yet.
\<close>

definition win_demo_table :: "nat \<Rightarrow> win_process option" where
  "win_demo_table p =
     (if p = 4 then Some \<lparr>grants = (\<lambda>a. False), suspend_count = 0\<rparr>
      else if p = 1000
      then Some \<lparr>grants = (\<lambda>a. a = PROCESS_QUERY_LIMITED_INFORMATION), suspend_count = 0\<rparr>
      else if p = 1200 then Some \<lparr>grants = (\<lambda>a. True), suspend_count = 0\<rparr>
      else None)"

definition win_demo :: win_os where
  "win_demo =
     \<lparr>snapshot = Some
        [\<lparr>th32ProcessID = 0, th32ParentProcessID = 0, szExeFile = ''[System Process]''\<rparr>,
         \<lparr>th32ProcessID = 4, th32ParentProcessID = 0, szExeFile = ''System''\<rparr>,
         \<lparr>th32ProcessID = 1000, th32ParentProcessID = 880, szExeFile = ''notepad.exe''\<rparr>,
         \<lparr>th32ProcessID = 1200, th32ParentProcessID = 1000, szExeFile = ''notepad.exe''\<rparr>,
         \<lparr>th32ProcessID = 1300, th32ParentProcessID = 1000, szExeFile = ''notepad.exe''\<rparr>],
      wtable = win_demo_table,
      ntdll_loaded = True,
      ntdll_exports = (\<lambda>n. True),
      token_opens = True,
      privilege_known = True,
      adjust_succeeds = False,
      nt_status = (\<lambda>s p. 0),
      initialized = False,
      g_pfnNtSuspendProcess = False,
      g_pfnNtResumeProcess = False,
      debug_privilege = False,
      wout = []\<rparr>"

text \<open>A snapshot of three entries: 1000, its child 1200, and the system process.\<close>

definition win_chain :: win_os where
  "win_chain = win_demo\<lparr>snapshot := Some
     [\<lparr>th32ProcessID = 1000, th32ParentProcessID = 880, szExeFile = ''notepad.exe''\<rparr>,
      \<lparr>th32ProcessID = 1200, th32ParentProcessID = 1000, szExeFile = ''notepad.exe''\<rparr>,
      \<lparr>th32ProcessID = 4, th32ParentProcessID = 0, szExeFile = ''System''\<rparr>]\<rparr>"

definition win_demo_rank :: "nat \<Rightarrow> nat" where
  "win_demo_rank p = (if p = 880 then 2 else if p = 1000 then 1 else 0)"

text \<open>The same system while its processes are exiting: the two entry points return
  \<^verbatim>\<open>STATUS_PROCESS_IS_TERMINATING\<close>, \<^verbatim>\<open>0xC000010A\<close> as a \<^verbatim>\<open>LONG\<close>.\<close>

definition win_exiting :: win_os where
  "win_exiting = win_demo\<lparr>nt_status := (\<lambda>s p. - 1073741558)\<rparr>"

text \<open>The same system without the idle and system processes' entries.\<close>

definition win_user :: win_os where
  "win_user = win_demo\<lparr>snapshot := map_option (drop 2) (snapshot win_demo)\<rparr>"

section \<open>Properties\<close>

subsection \<open>What the functions leave alone\<close>

lemma emit_simps:
  "proc_dir (emit e w) = proc_dir w"
  "comm_file (emit e w) = comm_file w"
  "stat_file (emit e w) = stat_file w"
  "cgroup_file (emit e w) = cgroup_file w"
  "cgroup_controllers (emit e w) = cgroup_controllers w"
  "ptable (emit e w) = ptable w"
  "group_members (emit e w) = group_members w"
  "freeze_nodes (emit e w) = freeze_nodes w"
  "out (emit e w) = out w @ [e]"
  by (simp_all add: emit_def)

lemma ofstream_close_simps:
  "cgroup_file (ofstream_close path data w) = cgroup_file w"
  "ptable (ofstream_close path data w) = ptable w"
  "out (ofstream_close path data w) = out w"
  by (simp_all add: ofstream_close_def)

lemma sps_cgroup_file:
  "cgroup_file (snd (set_process_suspended pid s w)) = cgroup_file w"
  by (simp add: set_process_suspended_def Let_def emit_simps kill_def ofstream_insert_def
           ofstream_close_simps split: prod.splits)

lemma sps_path:
  "get_cgroup_v2_path (snd (set_process_suspended pid s w)) = get_cgroup_v2_path w"
  by (rule ext) (simp add: get_cgroup_v2_path_def sps_cgroup_file)

subsection \<open>The two backends of set_process_suspended\<close>

lemma sps_sandboxed:
  assumes "is_sandboxed_app (get_cgroup_v2_path w pid)" and "is_cgroup_v2_available w"
  shows "set_process_suspended pid suspend w =
     (if \<not> process_exists w pid then (False, emit (Stderr (PidNoLongerExists pid)) w)
      else
        let c = get_cgroup_v2_path w pid; path = freeze_file_path c;
            w2 = emit (SysOpenWrite path (ofstream_open w path))
                   (emit (Stdout (BelongsToSandboxedApp pid suspend c)) w) in
        if ofstream_open w path then
          if ofstream_fail w path
          then (False, emit (Stderr (FailedToWriteTo path))
                         (ofstream_insert path (if suspend then ''1'' else ''0'') w2))
          else (True, ofstream_close path (if suspend then ''1'' else ''0'')
                        (ofstream_insert path (if suspend then ''1'' else ''0'') w2))
        else (False, emit (Stderr (FailedToOpen path)) w2))"
proof -
  have cond: "(is_sandboxed_app (get_cgroup_v2_path w pid) \<and> is_cgroup_v2_available w) = True"
    using assms by simp
  have o: "ofstream_open (emit e w) path = ofstream_open w path"
          "ofstream_fail (emit e' (emit e w)) path = ofstream_fail w path" for e e' path
    by (simp_all add: ofstream_open_def ofstream_fail_def emit_simps)
  show ?thesis
    by (simp add: set_process_suspended_def Let_def cond o)
qed

lemma kill_errno_emit: "kill_errno (emit e w) pid = kill_errno w pid"
  by (simp add: kill_errno_def kill_targets_def signalable_def emit_simps)

lemma fst_kill: "fst (kill pid sig w) = kill_errno w pid"
  by (simp add: kill_def)

lemma sps_signal:
  assumes "\<not> (is_sandboxed_app (get_cgroup_v2_path w pid) \<and> is_cgroup_v2_available w)"
  shows "set_process_suspended pid suspend w =
     (if \<not> process_exists w pid then (False, emit (Stderr (PidNoLongerExists pid)) w)
      else
        let sig = (if suspend then SIGSTOP else SIGCONT);
            w2 = snd (kill pid sig (emit (Stdout (NotSandboxedSending pid suspend)) w)) in
        if kill_errno w pid \<noteq> None then (False, emit (Stderr (ErrorSending pid suspend)) w2)
        else (True, w2))"
proof -
  have k: "fst (kill pid sig (emit e w)) = kill_errno w pid" for sig e
    by (simp add: fst_kill kill_errno_emit)
  have cond: "(is_sandboxed_app (get_cgroup_v2_path w pid) \<and> is_cgroup_v2_available w) = False"
    using assms by simp
  show ?thesis
    by (simp add: set_process_suspended_def Let_def split_beta cond k del: not_None_eq)
qed

lemma kill_positive:
  assumes "0 < pid" and "ptable w pid = Some p" and "may_signal p"
  shows "kill_errno w pid = None"
    and "ptable (snd (kill pid sig w)) = (ptable w)(pid := Some (deliver sig p))"
    and "freeze_nodes (snd (kill pid sig w)) = freeze_nodes w"
  using assms
  by (auto simp add: kill_def kill_errno_def kill_targets_def signalable_def emit_simps)

lemma signalable_Some:
  "signalable w pid \<Longrightarrow> \<exists>p. ptable w pid = Some p \<and> may_signal p"
  by (auto simp add: signalable_def split: option.splits)

lemma sps_signal_ok:
  assumes ns: "\<not> (is_sandboxed_app (get_cgroup_v2_path w pid) \<and> is_cgroup_v2_available w)"
    and "0 < pid" and "ptable w pid = Some p" and "may_signal p"
  shows "fst (set_process_suspended pid suspend w)"
    and "ptable (snd (set_process_suspended pid suspend w)) pid = Some (p\<lparr>stopped := suspend\<rparr>)"
    and "freeze_nodes (snd (set_process_suspended pid suspend w)) = freeze_nodes w"
proof -
  have e: "kill_errno w pid = None"
    using kill_positive(1) [OF assms(2-4)] .
  then have ex: "process_exists w pid"
    by (simp add: process_exists_def)
  let ?w1 = "emit (Stdout (NotSandboxedSending pid suspend)) w"
  have p1: "ptable ?w1 pid = Some p"
    using assms(3) by (simp add: emit_simps)
  note k = kill_positive [OF assms(2) p1 assms(4)]
  show "fst (set_process_suspended pid suspend w)"
    unfolding sps_signal [OF ns] using ex e by (simp add: Let_def)
  show "ptable (snd (set_process_suspended pid suspend w)) pid = Some (p\<lparr>stopped := suspend\<rparr>)"
    unfolding sps_signal [OF ns] using ex e k(2) by (simp add: Let_def deliver_def)
  show "freeze_nodes (snd (set_process_suspended pid suspend w)) = freeze_nodes w"
    unfolding sps_signal [OF ns] using ex e k(3) by (simp add: Let_def emit_simps)
qed

lemma sps_freeze_ok:
  assumes sb: "is_sandboxed_app (get_cgroup_v2_path w pid)" "is_cgroup_v2_available w"
    and ex: "process_exists w pid"
    and op: "ofstream_open w (freeze_file_path (get_cgroup_v2_path w pid))"
    and nf: "\<not> ofstream_fail w (freeze_file_path (get_cgroup_v2_path w pid))"
  shows "fst (set_process_suspended pid suspend w)"
    and "ptable (snd (set_process_suspended pid suspend w)) = ptable w"
    and "is_frozen (snd (set_process_suspended pid suspend w)) (get_cgroup_v2_path w pid) =
           (if write_accepted w (freeze_file_path (get_cgroup_v2_path w pid)) then suspend
            else is_frozen w (get_cgroup_v2_path w pid))"
proof -
  show "fst (set_process_suspended pid suspend w)"
    unfolding sps_sandboxed [OF sb] using ex op nf by (simp add: Let_def)
  show "ptable (snd (set_process_suspended pid suspend w)) = ptable w"
    unfolding sps_sandboxed [OF sb] using ex op nf
    by (simp add: Let_def ofstream_insert_def ofstream_close_simps emit_simps)
  show "is_frozen (snd (set_process_suspended pid suspend w)) (get_cgroup_v2_path w pid) =
           (if write_accepted w (freeze_file_path (get_cgroup_v2_path w pid)) then suspend
            else is_frozen w (get_cgroup_v2_path w pid))"
    unfolding sps_sandboxed [OF sb] using ex op nf
    by (simp add: Let_def ofstream_insert_def ofstream_close_def write_accepted_def emit_simps
          is_frozen_def ofstream_open_def ofstream_fail_def split: option.splits)
qed

text \<open>A write that the kernel rejects goes unnoticed: the call returns true and the
  group is as it was.\<close>

lemma sps_rejected_write:
  assumes sb: "is_sandboxed_app (get_cgroup_v2_path w pid)" "is_cgroup_v2_available w"
    and ex: "process_exists w pid"
    and op: "ofstream_open w (freeze_file_path (get_cgroup_v2_path w pid))"
    and nf: "\<not> ofstream_fail w (freeze_file_path (get_cgroup_v2_path w pid))"
    and rj: "\<not> write_accepted w (freeze_file_path (get_cgroup_v2_path w pid))"
  shows "fst (set_process_suspended pid suspend w)"
    and "is_frozen (snd (set_process_suspended pid suspend w)) (get_cgroup_v2_path w pid) =
           is_frozen w (get_cgroup_v2_path w pid)"
  using sps_freeze_ok(1,3) [OF sb ex op nf, of suspend] rj by simp_all


subsection \<open>Facts about the concrete system\<close>

lemma demo_fields:
  "proc_dir demo = Some demo_dir" "out demo = []" "ptable demo = demo_ptable"
  by (simp_all add: demo_def)

lemma demo_paths:
  "get_cgroup_v2_path demo 101 = ''/sys/fs/cgroup/sandbox/app-1''"
  "get_cgroup_v2_path demo 205 = ''/sys/fs/cgroup/sandbox/app-1''"
  "freeze_file_path ''/sys/fs/cgroup/sandbox/app-1'' = ''/sys/fs/cgroup/sandbox/app-1/cgroup.freeze''"
  by code_simp+

lemma demo_sandbox:
  "is_sandboxed_app ''/sys/fs/cgroup/sandbox/app-1''"
  "is_cgroup_v2_available demo"
  "process_exists demo 101"
  "ofstream_open demo ''/sys/fs/cgroup/sandbox/app-1/cgroup.freeze''"
  "\<not> ofstream_fail demo ''/sys/fs/cgroup/sandbox/app-1/cgroup.freeze''"
  by code_simp+

subsection \<open>A process that is gone\<close>

lemma process_exists_absent:
  "0 < pid \<Longrightarrow> ptable w pid = None \<Longrightarrow> \<not> process_exists w pid"
  by (simp add: process_exists_def kill_errno_def kill_targets_def)

text \<open>
  \<^verbatim>\<open>kill\<close> reads a first argument that is not positive as the name of a process
  group, so the probe of \<open>process_exists\<close> succeeds for it as soon as the caller may
  signal one member of the group.
\<close>

lemma process_exists_group:
  assumes "pid \<le> 0" and "t \<in> set (group_members w pid)" and "signalable w t"
  shows "process_exists w pid"
proof -
  have t: "t \<in> set (kill_targets w pid)"
    using assms by (auto simp add: kill_targets_def signalable_def split: option.splits)
  then have "t \<in> set (filter (signalable w) (kill_targets w pid))"
    using assms(3) by simp
  then have "filter (signalable w) (kill_targets w pid) \<noteq> []"
    by (metis empty_iff empty_set)
  moreover have "kill_targets w pid \<noteq> []"
    using t by (metis empty_iff empty_set)
  ultimately show ?thesis
    by (simp add: process_exists_def kill_errno_def)
qed

lemma process_exists_win32_absent:
  "wtable ws pid = None \<Longrightarrow> \<not> process_exists_win32 ws pid"
  by (simp add: process_exists_win32_def OpenProcess_def)

text \<open>
  For a positive process identifier absent from the process table, and under Windows
  for any absent identifier, suspend and resume fail: \<open>set_process_suspended\<close> returns
  false for either flag, and all it does is print the "no longer exists" line. On Linux
  no signal is sent, no control node opened or written, and the process table and the
  control nodes are as before; under Windows the entry points are not looked up and no
  handle is opened.
\<close>

theorem set_process_suspended_absent:
  "(0 < pid \<and> ptable w pid = None \<longrightarrow>
      set_process_suspended pid suspend w =
        (False, w\<lparr>out := out w @ [Stderr (PidNoLongerExists pid)]\<rparr>)) \<and>
   (wtable ws wpid = None \<longrightarrow>
      set_process_suspended_win32 wpid suspend ws =
        (False, ws\<lparr>wout := wout ws @ [WStderr (WNoLongerExists wpid)]\<rparr>))"
  using process_exists_absent [of pid w] process_exists_win32_absent [of ws wpid]
  by (simp add: set_process_suspended_def set_process_suspended_win32_def emit_def wemit_def)

theorem set_process_suspended_absent_witness:
  "(0::int) < 999 \<and> ptable demo 999 = None \<and> wtable win_demo 999 = None \<and>
   set_process_suspended 999 True demo =
     (False, demo\<lparr>out := out demo @ [Stderr (PidNoLongerExists 999)]\<rparr>) \<and>
   set_process_suspended 999 False demo =
     (False, demo\<lparr>out := out demo @ [Stderr (PidNoLongerExists 999)]\<rparr>) \<and>
   set_process_suspended_win32 999 True win_demo =
     (False, win_demo\<lparr>wout := wout win_demo @ [WStderr (WNoLongerExists 999)]\<rparr>)"
proof -
  have absent: "ptable demo 999 = None" "wtable win_demo 999 = None"
    by (simp_all add: demo_def demo_ptable_def win_demo_def win_demo_table_def)
  show ?thesis
    using absent set_process_suspended_absent [of 999 demo True win_demo 999]
      set_process_suspended_absent [of 999 demo False win_demo 999]
    by simp
qed

lemma demo_session_minus_one:
  "ptable demo_session (- 1) = None"
  "process_exists demo_session (- 1)"
  "fst (set_process_suspended (- 1) True demo_session)"
  "out (snd (set_process_suspended (- 1) True demo_session)) =
     [Stdout (NotSandboxedSending (- 1) True), SysKill (- 1) SIGSTOP None]"
  "\<not> is_stopped demo_session 101"
  "is_stopped (snd (set_process_suspended (- 1) True demo_session)) 101"
  "\<not> is_stopped demo_session 511"
  "is_stopped (snd (set_process_suspended (- 1) True demo_session)) 511"
  "fst (set_process_suspended (- 1) False demo_session)"
  "out (snd (set_process_suspended (- 1) False demo_session)) =
     [Stdout (NotSandboxedSending (- 1) False), SysKill (- 1) SIGCONT None]"
  by code_simp+

text \<open>Under Windows the value -1 is the \<^verbatim>\<open>DWORD\<close> 4294967295. It names no process
  either, and there \<open>set_process_suspended\<close> returns false for it.\<close>

lemma win_demo_minus_one:
  "wtable win_demo 4294967295 = None"
  "\<not> fst (set_process_suspended_win32 4294967295 suspend win_demo)"
proof -
  show absent: "wtable win_demo 4294967295 = None"
    by (simp add: win_demo_def win_demo_table_def)
  show "\<not> fst (set_process_suspended_win32 4294967295 suspend win_demo)"
    using process_exists_win32_absent [OF absent]
    by (simp add: set_process_suspended_win32_def)
qed

text \<open>
  Claim C3, evaluated on the code at the identifier -1. For every process identifier
  absent from the process table suspend and resume are to fail without acting. No
  process has the identifier -1, which is what \<^verbatim>\<open>find_process_by_name\<close> and
  \<^verbatim>\<open>get_parent_pid\<close> return when they find nothing. There is no guard for it on Linux:
  the probe \<^verbatim>\<open>kill(-1, 0)\<close> of \<open>process_exists\<close> addresses every process the caller
  may signal and succeeds, and \<open>set_process_suspended\<close> returns true for either flag
  after sending the signal to all of them: 101 and 511, which were running, are
  stopped.
\<close>

theorem set_process_suspended_minus_one:
  "ptable demo_session (- 1) = None \<and>
   process_exists demo_session (- 1) \<and>
   fst (set_process_suspended (- 1) True demo_session) \<and>
   out (snd (set_process_suspended (- 1) True demo_session)) =
     [Stdout (NotSandboxedSending (- 1) True), SysKill (- 1) SIGSTOP None] \<and>
   \<not> is_stopped demo_session 101 \<and>
   is_stopped (snd (set_process_suspended (- 1) True demo_session)) 101 \<and>
   \<not> is_stopped demo_session 511 \<and>
   is_stopped (snd (set_process_suspended (- 1) True demo_session)) 511 \<and>
   fst (set_process_suspended (- 1) False demo_session) \<and>
   out (snd (set_process_suspended (- 1) False demo_session)) =
     [Stdout (NotSandboxedSending (- 1) False), SysKill (- 1) SIGCONT None]"
  using demo_session_minus_one by simp

subsection \<open>A sandboxed process is frozen, never signalled\<close>

text \<open>
  Claim C4. When the control group path of a process names a sandboxed application and
  cgroup v2 is available, \<open>set_process_suspended\<close> acts through the group's
  \<^verbatim>\<open>cgroup.freeze\<close> node only: it sends no signal at all (the trace gains no \<open>SysKill\<close>
  and the process table is as before), the only file it opens is that node, once, when
  the process exists, and what it writes is "1" to suspend and "0" to resume, to that
  node, once, when the node could be opened, and nothing otherwise.
\<close>

theorem sandboxed_uses_freeze_only:
  assumes "is_sandboxed_app (get_cgroup_v2_path w pid)" and "is_cgroup_v2_available w"
  shows "ptable (snd (set_process_suspended pid suspend w)) = ptable w \<and>
         filter is_kill (out (snd (set_process_suspended pid suspend w))) =
           filter is_kill (out w) \<and>
         filter is_open (out (snd (set_process_suspended pid suspend w))) =
           filter is_open (out w) @
             (if process_exists w pid
              then [SysOpenWrite (freeze_file_path (get_cgroup_v2_path w pid))
                      (ofstream_open w (freeze_file_path (get_cgroup_v2_path w pid)))]
              else []) \<and>
         filter is_write (out (snd (set_process_suspended pid suspend w))) =
           filter is_write (out w) @
             (if process_exists w pid \<and>
                 ofstream_open w (freeze_file_path (get_cgroup_v2_path w pid))
              then [SysWrite (freeze_file_path (get_cgroup_v2_path w pid))
                      (if suspend then ''1'' else ''0'')]
              else [])"
  unfolding sps_sandboxed [OF assms]
  by (simp add: Let_def emit_simps ofstream_insert_def ofstream_close_simps)

theorem sandboxed_uses_freeze_only_witness:
  "is_sandboxed_app (get_cgroup_v2_path demo 101) \<and> is_cgroup_v2_available demo \<and>
   ptable (snd (set_process_suspended 101 False demo)) = ptable demo \<and>
   filter is_kill (out (snd (set_process_suspended 101 False demo))) = [] \<and>
   filter is_open (out (snd (set_process_suspended 101 False demo))) =
     [SysOpenWrite ''/sys/fs/cgroup/sandbox/app-1/cgroup.freeze'' True] \<and>
   filter is_write (out (snd (set_process_suspended 101 False demo))) =
     [SysWrite ''/sys/fs/cgroup/sandbox/app-1/cgroup.freeze'' ''0'']"
proof -
  have sb: "is_sandboxed_app (get_cgroup_v2_path demo 101)"
    using demo_sandbox(1) by (simp add: demo_paths)
  show ?thesis
    using sb sandboxed_uses_freeze_only [OF sb demo_sandbox(2), of False]
      demo_sandbox demo_paths demo_fields(2)
    by simp
qed

subsection \<open>Suspending twice, resuming twice\<close>

lemma init_nt_functions_keeps:
  "wtable (init_nt_functions ws) = wtable ws"
  "nt_status (init_nt_functions ws) = nt_status ws"
  by (simp_all add: init_nt_functions_def lookup_nt_def enable_debug_privilege_def wemit_def
        Let_def)

lemma init_nt_functions_pointers:
  assumes "nt_functions_available ws"
  shows "g_pfnNtSuspendProcess (init_nt_functions ws)"
    and "g_pfnNtResumeProcess (init_nt_functions ws)"
  using assms
  by (simp_all add: nt_functions_available_def init_nt_functions_def lookup_nt_def
        enable_debug_privilege_def wemit_def Let_def split: if_splits)

lemma sps_win32_ok:
  assumes ex: "process_exists_win32 ws pid"
    and ctl: "can_control_process_win32 ws pid"
    and nt: "nt_functions_available ws"
    and st: "nt_status ws suspend pid = 0"
  shows "fst (set_process_suspended_win32 pid suspend ws)"
    and "wtable (snd (set_process_suspended_win32 pid suspend ws)) pid =
           map_option
             (\<lambda>p. p\<lparr>suspend_count :=
                     (if suspend then suspend_count p + 1 else suspend_count p - 1)\<rparr>)
             (wtable ws pid)"
proof -
  let ?ws1 = "init_nt_functions ws"
  note ptr = init_nt_functions_pointers [OF nt]
  have op: "OpenProcess ?ws1 PROCESS_SUSPEND_RESUME pid"
    using ctl by (simp add: can_control_process_win32_def OpenProcess_def init_nt_functions_keeps)
  have st1: "nt_status ?ws1 suspend pid = 0"
    using st by (simp add: init_nt_functions_keeps)
  have r: "set_process_suspended_win32 pid suspend ws =
             (fst (nt_call suspend pid ?ws1) = 0,
              wemit (WStdout (if suspend then Suspended pid else Resumed pid))
                (snd (nt_call suspend pid ?ws1)))"
    using ex ptr op by (simp add: set_process_suspended_win32_def Let_def split_beta)
  show "fst (set_process_suspended_win32 pid suspend ws)"
    unfolding r using st1 by (simp add: nt_call_def Let_def)
  show "wtable (snd (set_process_suspended_win32 pid suspend ws)) pid =
          map_option
            (\<lambda>p. p\<lparr>suspend_count :=
                    (if suspend then suspend_count p + 1 else suspend_count p - 1)\<rparr>)
            (wtable ws pid)"
    unfolding r using st1 by (simp add: nt_call_def Let_def wemit_def init_nt_functions_keeps)
qed

lemma sps_idempotent_linux:
  assumes pos: "0 < pid" and ctl: "signalable w pid"
    and node: "is_sandboxed_app (get_cgroup_v2_path w pid) \<and> is_cgroup_v2_available w \<longrightarrow>
               ofstream_open w (freeze_file_path (get_cgroup_v2_path w pid)) \<and>
               \<not> ofstream_fail w (freeze_file_path (get_cgroup_v2_path w pid))"
  shows "(is_suspended w pid \<longrightarrow>
            fst (set_process_suspended pid True w) \<and>
            is_suspended (snd (set_process_suspended pid True w)) pid) \<and>
         (\<not> is_suspended w pid \<longrightarrow>
            fst (set_process_suspended pid False w) \<and>
            \<not> is_suspended (snd (set_process_suspended pid False w)) pid)"
proof -
  obtain p where p: "ptable w pid = Some p" "may_signal p"
    using ctl signalable_Some by blast
  have path: "get_cgroup_v2_path (snd (set_process_suspended pid s w)) pid =
              get_cgroup_v2_path w pid" for s
    by (simp add: sps_path)
  show ?thesis
  proof (cases "is_sandboxed_app (get_cgroup_v2_path w pid) \<and> is_cgroup_v2_available w")
    case True
    then have sb: "is_sandboxed_app (get_cgroup_v2_path w pid)" "is_cgroup_v2_available w"
      by simp_all
    have ex: "process_exists w pid"
      using kill_positive(1) [OF pos p] by (simp add: process_exists_def)
    have op: "ofstream_open w (freeze_file_path (get_cgroup_v2_path w pid))"
      and nf: "\<not> ofstream_fail w (freeze_file_path (get_cgroup_v2_path w pid))"
      using node True by simp_all
    note f = sps_freeze_ok [OF sb ex op nf]
    show ?thesis
      using f(1) [of True] f(1) [of False] f(2) [of True] f(2) [of False]
        f(3) [of True] f(3) [of False]
      by (simp add: is_suspended_def is_stopped_def path)
  next
    case False
    note s = sps_signal_ok [OF False pos p]
    show ?thesis
      using s(1) [of True] s(1) [of False] s(2) [of True] s(2) [of False]
        s(3) [of True] s(3) [of False] p
      by (simp add: is_suspended_def is_stopped_def is_frozen_def path)
  qed
qed

lemma sps_idempotent_win32:
  assumes ex: "process_exists_win32 ws pid"
    and ctl: "can_control_process_win32 ws pid"
    and nt: "nt_functions_available ws"
    and st: "nt_status ws True pid = 0" "nt_status ws False pid = 0"
  shows "(is_suspended_win32 ws pid \<longrightarrow>
            fst (set_process_suspended_win32 pid True ws) \<and>
            is_suspended_win32 (snd (set_process_suspended_win32 pid True ws)) pid) \<and>
         (\<not> is_suspended_win32 ws pid \<longrightarrow>
            fst (set_process_suspended_win32 pid False ws) \<and>
            \<not> is_suspended_win32 (snd (set_process_suspended_win32 pid False ws)) pid)"
proof -
  obtain p where p: "wtable ws pid = Some p"
    using ex by (auto simp add: process_exists_win32_def OpenProcess_def split: option.splits)
  note s = sps_win32_ok [OF ex ctl nt st(1)]
  note r = sps_win32_ok [OF ex ctl nt st(2)]
  show ?thesis
    using s r p by (simp add: is_suspended_win32_def)
qed

text \<open>
  Claim C7, as the code has it. On Linux, let the caller be allowed to signal a process
  and, when the process is sandboxed and cgroup v2 is available, let the stream on its
  group's \<^verbatim>\<open>cgroup.freeze\<close> open and take the byte. Under Windows, let the caller be
  able to open the process for a query and for suspending, let the two entry points be
  there, and let the calls through them return the status 0. Then, if the process is
  already suspended, suspending it succeeds and leaves it suspended; if it is running,
  resuming it succeeds and leaves it running. A sandboxed process stays as it was also
  when the kernel rejects the write to \<^verbatim>\<open>cgroup.freeze\<close>.
\<close>

theorem set_process_suspended_idempotent:
  "(0 < pid \<and> signalable w pid \<and>
    (is_sandboxed_app (get_cgroup_v2_path w pid) \<and> is_cgroup_v2_available w \<longrightarrow>
       ofstream_open w (freeze_file_path (get_cgroup_v2_path w pid)) \<and>
       \<not> ofstream_fail w (freeze_file_path (get_cgroup_v2_path w pid))) \<longrightarrow>
      (is_suspended w pid \<longrightarrow>
         fst (set_process_suspended pid True w) \<and>
         is_suspended (snd (set_process_suspended pid True w)) pid) \<and>
      (\<not> is_suspended w pid \<longrightarrow>
         fst (set_process_suspended pid False w) \<and>
         \<not> is_suspended (snd (set_process_suspended pid False w)) pid)) \<and>
   (process_exists_win32 ws wpid \<and> can_control_process_win32 ws wpid \<and>
    nt_functions_available ws \<and>
    nt_status ws True wpid = 0 \<and> nt_status ws False wpid = 0 \<longrightarrow>
      (is_suspended_win32 ws wpid \<longrightarrow>
         fst (set_process_suspended_win32 wpid True ws) \<and>
         is_suspended_win32 (snd (set_process_suspended_win32 wpid True ws)) wpid) \<and>
      (\<not> is_suspended_win32 ws wpid \<longrightarrow>
         fst (set_process_suspended_win32 wpid False ws) \<and>
         \<not> is_suspended_win32 (snd (set_process_suspended_win32 wpid False ws)) wpid))"
proof (rule conjI; rule impI)
  assume "0 < pid \<and> signalable w pid \<and>
    (is_sandboxed_app (get_cgroup_v2_path w pid) \<and> is_cgroup_v2_available w \<longrightarrow>
       ofstream_open w (freeze_file_path (get_cgroup_v2_path w pid)) \<and>
       \<not> ofstream_fail w (freeze_file_path (get_cgroup_v2_path w pid)))"
  then have h: "0 < pid" "signalable w pid"
    "is_sandboxed_app (get_cgroup_v2_path w pid) \<and> is_cgroup_v2_available w \<longrightarrow>
       ofstream_open w (freeze_file_path (get_cgroup_v2_path w pid)) \<and>
       \<not> ofstream_fail w (freeze_file_path (get_cgroup_v2_path w pid))"
    by simp_all
  show "(is_suspended w pid \<longrightarrow>
           fst (set_process_suspended pid True w) \<and>
           is_suspended (snd (set_process_suspended pid True w)) pid) \<and>
        (\<not> is_suspended w pid \<longrightarrow>
           fst (set_process_suspended pid False w) \<and>
           \<not> is_suspended (snd (set_process_suspended pid False w)) pid)"
    by (rule sps_idempotent_linux [OF h])
next
  assume "process_exists_win32 ws wpid \<and> can_control_process_win32 ws wpid \<and>
    nt_functions_available ws \<and>
    nt_status ws True wpid = 0 \<and> nt_status ws False wpid = 0"
  then have h: "process_exists_win32 ws wpid" "can_control_process_win32 ws wpid"
    "nt_functions_available ws" "nt_status ws True wpid = 0" "nt_status ws False wpid = 0"
    by simp_all
  show "(is_suspended_win32 ws wpid \<longrightarrow>
           fst (set_process_suspended_win32 wpid True ws) \<and>
           is_suspended_win32 (snd (set_process_suspended_win32 wpid True ws)) wpid) \<and>
        (\<not> is_suspended_win32 ws wpid \<longrightarrow>
           fst (set_process_suspended_win32 wpid False ws) \<and>
           \<not> is_suspended_win32 (snd (set_process_suspended_win32 wpid False ws)) wpid)"
    by (rule sps_idempotent_win32 [OF h])
qed

text \<open>The witness: 310, once stopped, is suspended again, and so is 101, whose group is
  frozen; 511, running, is resumed. Under Windows 1200, running, is resumed, and once
  suspended it is suspended again.\<close>

lemma demo_stopped_310:
  "signalable (snd (set_process_suspended 310 True demo)) 310"
  "\<not> is_sandboxed_app (get_cgroup_v2_path (snd (set_process_suspended 310 True demo)) 310)"
  "is_suspended (snd (set_process_suspended 310 True demo)) 310"
  by code_simp+

lemma demo_frozen_101:
  "signalable (snd (set_process_suspended 101 True demo)) 101"
  "ofstream_open (snd (set_process_suspended 101 True demo))
     (freeze_file_path (get_cgroup_v2_path (snd (set_process_suspended 101 True demo)) 101))"
  "\<not> ofstream_fail (snd (set_process_suspended 101 True demo))
       (freeze_file_path (get_cgroup_v2_path (snd (set_process_suspended 101 True demo)) 101))"
  "is_suspended (snd (set_process_suspended 101 True demo)) 101"
  by code_simp+

lemma demo_running_511:
  "signalable demo 511" "\<not> is_sandboxed_app (get_cgroup_v2_path demo 511)"
  "\<not> is_suspended demo 511"
  by code_simp+

lemma win_demo_1200:
  "process_exists_win32 win_demo 1200" "can_control_process_win32 win_demo 1200"
  "nt_functions_available win_demo"
  "nt_status win_demo True 1200 = 0" "nt_status win_demo False 1200 = 0"
  "\<not> is_suspended_win32 win_demo 1200"
  by code_simp+

lemma win_demo_suspended_1200:
  "process_exists_win32 (snd (set_process_suspended_win32 1200 True win_demo)) 1200"
  "can_control_process_win32 (snd (set_process_suspended_win32 1200 True win_demo)) 1200"
  "nt_functions_available (snd (set_process_suspended_win32 1200 True win_demo))"
  "nt_status (snd (set_process_suspended_win32 1200 True win_demo)) True 1200 = 0"
  "nt_status (snd (set_process_suspended_win32 1200 True win_demo)) False 1200 = 0"
  "is_suspended_win32 (snd (set_process_suspended_win32 1200 True win_demo)) 1200"
  by code_simp+

theorem set_process_suspended_idempotent_witness:
  "is_suspended (snd (set_process_suspended 310 True demo)) 310 \<and>
   fst (set_process_suspended 310 True (snd (set_process_suspended 310 True demo))) \<and>
   is_suspended
     (snd (set_process_suspended 310 True (snd (set_process_suspended 310 True demo)))) 310 \<and>
   is_suspended (snd (set_process_suspended 101 True demo)) 101 \<and>
   fst (set_process_suspended 101 True (snd (set_process_suspended 101 True demo))) \<and>
   is_suspended
     (snd (set_process_suspended 101 True (snd (set_process_suspended 101 True demo)))) 101 \<and>
   \<not> is_suspended demo 511 \<and>
   fst (set_process_suspended 511 False demo) \<and>
   \<not> is_suspended (snd (set_process_suspended 511 False demo)) 511 \<and>
   \<not> is_suspended_win32 win_demo 1200 \<and>
   fst (set_process_suspended_win32 1200 False win_demo) \<and>
   \<not> is_suspended_win32 (snd (set_process_suspended_win32 1200 False win_demo)) 1200 \<and>
   is_suspended_win32 (snd (set_process_suspended_win32 1200 True win_demo)) 1200 \<and>
   fst (set_process_suspended_win32 1200 True
          (snd (set_process_suspended_win32 1200 True win_demo))) \<and>
   is_suspended_win32
     (snd (set_process_suspended_win32 1200 True
             (snd (set_process_suspended_win32 1200 True win_demo)))) 1200"
proof -
  have pos: "(0::int) < 310" "(0::int) < 101" "(0::int) < 511"
    by simp_all
  show ?thesis
    using set_process_suspended_idempotent
            [where pid = 310 and w = "snd (set_process_suspended 310 True demo)"
               and wpid = 1200 and ws = win_demo]
      set_process_suspended_idempotent
            [where pid = 101 and w = "snd (set_process_suspended 101 True demo)"
               and wpid = 1200 and ws = "snd (set_process_suspended_win32 1200 True win_demo)"]
      set_process_suspended_idempotent
            [where pid = 511 and w = demo and wpid = 1200 and ws = win_demo]
      pos demo_stopped_310 demo_frozen_101 demo_running_511
      win_demo_1200 win_demo_suspended_1200
    by simp
qed

text \<open>
  The claim as stated asks no more of the process than that it is in the process table
  and that the caller can control it. In \<open>demo_locked\<close> 101 is in the process table, the
  caller may signal it and \<open>can_control_process\<close> says so, and it is suspended: its
  group is frozen. It is sandboxed, so \<open>set_process_suspended\<close> goes for the group's
  \<^verbatim>\<open>cgroup.freeze\<close>, which the caller cannot open: suspending it again returns false.
  Under Windows 1200 is running and the caller can open it for suspending; while it is
  exiting \<^verbatim>\<open>NtResumeProcess\<close> returns a status other than 0, and resuming it returns
  false.
\<close>

theorem set_process_suspended_not_idempotent:
  "ptable demo_locked 101 \<noteq> None \<and> signalable demo_locked 101 \<and>
   can_control_process demo_locked 101 \<and>
   is_suspended demo_locked 101 \<and>
   \<not> fst (set_process_suspended 101 True demo_locked) \<and>
   out (snd (set_process_suspended 101 True demo_locked)) =
     [Stdout (BelongsToSandboxedApp 101 True ''/sys/fs/cgroup/sandbox/app-1''),
      SysOpenWrite ''/sys/fs/cgroup/sandbox/app-1/cgroup.freeze'' False,
      Stderr (FailedToOpen ''/sys/fs/cgroup/sandbox/app-1/cgroup.freeze'')] \<and>
   process_exists_win32 win_exiting 1200 \<and> can_control_process_win32 win_exiting 1200 \<and>
   \<not> is_suspended_win32 win_exiting 1200 \<and>
   \<not> fst (set_process_suspended_win32 1200 False win_exiting)"
  by code_simp

subsection \<open>The batch loop\<close>

lemma batch_units_cong:
  "get_cgroup_v2_path w' = get_cgroup_v2_path w \<Longrightarrow> batch_units w' ps = batch_units w ps"
  by (induction w ps rule: batch_units.induct) simp_all




lemma by_name_loop_units:
  "by_name_loop s pids H n w =
     (let (oks, w2) = attempt_all s
            (batch_units w
               (filter (\<lambda>q. get_cgroup_v2_path w q = [] \<or> get_cgroup_v2_path w q \<notin> H) pids))
            w
      in (n + int (length (filter (\<lambda>ok. ok) oks)), w2))"
proof (induction pids arbitrary: H n w)
  case Nil
  show ?case by simp
next
  case (Cons p ps)
  let ?c = "get_cgroup_v2_path w p"
  show ?case
  proof (cases "?c \<noteq> [] \<and> ?c \<in> H")
    case True
    then show ?thesis
      using Cons.IH [of H n w] by simp
  next
    case False
    obtain ok w' where r: "set_process_suspended p s w = (ok, w')"
      by (cases "set_process_suspended p s w")
    have path: "get_cgroup_v2_path w' = get_cgroup_v2_path w"
      using sps_path [of p s w] r by simp
    let ?H' = "if ?c \<noteq> [] then insert ?c H else H"
    have flt:
      "filter (\<lambda>q. get_cgroup_v2_path w q = [] \<or> get_cgroup_v2_path w q \<noteq> ?c)
         (filter (\<lambda>q. get_cgroup_v2_path w q = [] \<or> get_cgroup_v2_path w q \<notin> H) ps)
       = filter (\<lambda>q. get_cgroup_v2_path w q = [] \<or> get_cgroup_v2_path w q \<notin> ?H') ps"
      by (auto intro!: filter_cong)
    have "by_name_loop s (p # ps) H n w =
            by_name_loop s ps ?H' (if ok then n + 1 else n) w'"
      using False r by (auto simp add: Let_def)
    also have "\<dots> =
        (let (oks, w2) = attempt_all s
               (batch_units w
                  (filter (\<lambda>q. get_cgroup_v2_path w q = [] \<or> get_cgroup_v2_path w q \<notin> ?H') ps))
               w'
         in ((if ok then n + 1 else n) + int (length (filter (\<lambda>ok. ok) oks)), w2))"
      using Cons.IH [of ?H' "if ok then n + 1 else n" w'] path batch_units_cong [OF path]
      by simp
    finally show ?thesis
      using False r flt by (auto simp add: Let_def split: prod.splits)
  qed
qed

lemma by_name_loop_win32_all:
  "by_name_loop_win32 s pids n ws =
     (let (oks, ws2) = attempt_all_win32 s pids ws
      in (n + int (length (filter (\<lambda>ok. ok) oks)), ws2))"
  by (induction pids arbitrary: n ws) (auto simp add: Let_def split: prod.splits)

subsection \<open>One control group, many processes\<close>






subsection \<open>Two processes of one group that is not sandboxed\<close>

text \<open>
  Claim C2, evaluated on the code. 410 and 411 match \<^verbatim>\<open>pair\<close>. Neither has a
  resolvable isolation domain: the path they share is not that of a sandboxed
  application, so \<open>set_process_suspended\<close> would signal each of them. Both exist and
  may be signalled. The batch signals 410 and skips 411 as a duplicate of it: it
  returns 1 and 411 keeps running. Resuming passes over 411 the same way. The single
  process \<^verbatim>\<open>solo\<close>, which has no control group path at all, is signalled and counted.
\<close>

theorem by_name_skips_unsandboxed_sibling:
  "fst (find_all_processes_by_name ''pair'' demo) = [410, 411] \<and>
   \<not> is_sandboxed_app (get_cgroup_v2_path demo 410) \<and>
   \<not> is_sandboxed_app (get_cgroup_v2_path demo 411) \<and>
   process_exists demo 411 \<and> signalable demo 411 \<and>
   fst (suspend_processes_by_name ''pair'' demo) = 1 \<and>
   out (snd (suspend_processes_by_name ''pair'' demo)) =
     [Stdout (NotSandboxedSending 410 True), SysKill 410 SIGSTOP None] \<and>
   \<not> is_suspended (snd (suspend_processes_by_name ''pair'' demo)) 411 \<and>
   out (snd (resume_processes_by_name ''pair'' demo)) =
     [Stdout (NotSandboxedSending 410 False), SysKill 410 SIGCONT None] \<and>
   fst (find_all_processes_by_name ''solo'' demo) = [310] \<and>
   get_cgroup_v2_path demo 310 = [] \<and>
   fst (suspend_processes_by_name ''solo'' demo) = 1 \<and>
   out (snd (suspend_processes_by_name ''solo'' demo)) =
     [Stdout (NotSandboxedSending 310 True), SysKill 310 SIGSTOP None]"
  by code_simp

text \<open>What holds of the claim: matched processes without any control group path are
  units of their own, each passed to \<open>set_process_suspended\<close>.\<close>

lemma batch_units_no_path:
  "\<forall>q\<in>set pids. get_cgroup_v2_path w q = [] \<Longrightarrow> batch_units w pids = pids"
proof (induction pids)
  case Nil
  show ?case by simp
next
  case (Cons p ps)
  then have "filter (\<lambda>q. get_cgroup_v2_path w q = [] \<or>
                          get_cgroup_v2_path w q \<noteq> get_cgroup_v2_path w p) ps = ps"
    by (simp add: filter_id_conv)
  then show ?case
    using Cons by simp
qed

subsection \<open>A batch goes on after a failure\<close>

text \<open>
  \<open>suspend_processes_by_name\<close> and \<open>resume_processes_by_name\<close> call
  \<open>set_process_suspended\<close> on every unit the code forms of the matched processes, in
  order, whatever the earlier calls returned, and return the number of calls that
  returned true. On Linux these units are the first process of each control group path
  and every process without one; under Windows they are the matched processes.
\<close>

theorem by_name_continue_on_error:
  "suspend_processes_by_name exe_name w =
     (let (pids, w1) = find_all_processes_by_name exe_name w;
          (oks, w2) = attempt_all True (batch_units w1 pids) w1
      in (int (length (filter (\<lambda>ok. ok) oks)), w2)) \<and>
   resume_processes_by_name exe_name w =
     (let (pids, w1) = find_all_processes_by_name exe_name w;
          (oks, w2) = attempt_all False (batch_units w1 pids) w1
      in (int (length (filter (\<lambda>ok. ok) oks)), w2)) \<and>
   suspend_processes_by_name_win32 exe_name ws =
     (let (oks, ws2) = attempt_all_win32 True (find_all_processes_by_name_win32 exe_name ws) ws
      in (int (length (filter (\<lambda>ok. ok) oks)), ws2)) \<and>
   resume_processes_by_name_win32 exe_name ws =
     (let (oks, ws2) = attempt_all_win32 False (find_all_processes_by_name_win32 exe_name ws) ws
      in (int (length (filter (\<lambda>ok. ok) oks)), ws2))"
proof -
  have all: "filter (\<lambda>q. get_cgroup_v2_path w1 q = [] \<or> get_cgroup_v2_path w1 q \<notin> {}) pids = pids"
    for w1 pids
    by simp
  show ?thesis
    by (simp add: suspend_processes_by_name_def resume_processes_by_name_def
          suspend_processes_by_name_win32_def resume_processes_by_name_win32_def
          by_name_loop_units by_name_loop_win32_all all split_beta Let_def)
qed

text \<open>
  The witness: of the three processes \<^verbatim>\<open>job\<close> the caller may not signal 510, and 512
  has gone. Both fail, 511 between them is stopped, and the count is 1. Under Windows,
  of the three \<^verbatim>\<open>notepad.exe\<close> the caller can open 1200 only, the second of them.
\<close>

lemma demo_job:
  "scan_by_name demo ''job'' demo_dir = [510, 511, 512]"
  "batch_units demo [510, 511, 512] = [510, 511, 512]"
  "fst (attempt_all True [510, 511, 512] demo) = [False, True, False]"
  "out (snd (attempt_all True [510, 511, 512] demo)) =
     [Stdout (NotSandboxedSending 510 True), SysKill 510 SIGSTOP (Some EPERM),
      Stderr (ErrorSending 510 True),
      Stdout (NotSandboxedSending 511 True), SysKill 511 SIGSTOP None,
      Stderr (PidNoLongerExists 512)]"
  by code_simp+

lemma win_demo_notepad:
  "find_all_processes_by_name_win32 ''notepad.exe'' win_demo = [1000, 1200, 1300]"
  "fst (attempt_all_win32 True [1000, 1200, 1300] win_demo) = [False, True, False]"
  by code_simp+

theorem by_name_continue_on_error_witness:
  "fst (suspend_processes_by_name ''job'' demo) = 1 \<and>
   out (snd (suspend_processes_by_name ''job'' demo)) =
     [Stdout (NotSandboxedSending 510 True), SysKill 510 SIGSTOP (Some EPERM),
      Stderr (ErrorSending 510 True),
      Stdout (NotSandboxedSending 511 True), SysKill 511 SIGSTOP None,
      Stderr (PidNoLongerExists 512)] \<and>
   fst (suspend_processes_by_name_win32 ''notepad.exe'' win_demo) = 1"
proof -
  have found: "find_all_processes_by_name ''job'' demo = ([510, 511, 512], demo)"
    by (simp add: find_all_processes_by_name_def demo_fields demo_job(1))
  show ?thesis
    using by_name_continue_on_error [of "''job''" demo win_demo]
      by_name_continue_on_error [of "''notepad.exe''" demo win_demo]
      found demo_job win_demo_notepad
    by (simp add: split_beta)
qed

text \<open>
  Claim C5, evaluated on the code. In \<open>demo_denied\<close> 410 and 411 match \<^verbatim>\<open>pair\<close>.
  Neither is sandboxed, so neither belongs to an isolation domain and each is a unit of
  its own. The caller may not signal 410 and may signal 411: \<open>set_process_suspended\<close>
  on 411 alone returns true. The batch attempts 410, which fails, and never attempts
  411, which it takes for a duplicate of 410 because the two share a control group
  path. The trace ends with the failure, the count is 0, not 1, and 411 keeps running.
  Resuming stops after 410 the same way.
\<close>

theorem by_name_failure_hides_sibling:
  "fst (find_all_processes_by_name ''pair'' demo_denied) = [410, 411] \<and>
   \<not> is_sandboxed_app (get_cgroup_v2_path demo_denied 410) \<and>
   \<not> is_sandboxed_app (get_cgroup_v2_path demo_denied 411) \<and>
   \<not> signalable demo_denied 410 \<and> signalable demo_denied 411 \<and>
   fst (set_process_suspended 411 True demo_denied) \<and>
   fst (suspend_processes_by_name ''pair'' demo_denied) = 0 \<and>
   out (snd (suspend_processes_by_name ''pair'' demo_denied)) =
     [Stdout (NotSandboxedSending 410 True), SysKill 410 SIGSTOP (Some EPERM),
      Stderr (ErrorSending 410 True)] \<and>
   \<not> is_suspended (snd (suspend_processes_by_name ''pair'' demo_denied)) 411 \<and>
   fst (resume_processes_by_name ''pair'' demo_denied) = 0 \<and>
   out (snd (resume_processes_by_name ''pair'' demo_denied)) =
     [Stdout (NotSandboxedSending 410 False), SysKill 410 SIGCONT (Some EPERM),
      Stderr (ErrorSending 410 False)]"
  by code_simp

subsection \<open>can_control_process on a process of another user\<close>

text \<open>
  Claim C6, evaluated on the code. Init is in the process table and the caller may not
  signal it: the probe \<^verbatim>\<open>kill(1, 0)\<close> is rejected with \<^verbatim>\<open>EPERM\<close>. The Linux branch of
  \<open>can_control_process\<close> returns true all the same, and the suspend it was to filter
  fails. The Windows branch returns false for a process the caller can query but not
  open for suspending.
\<close>

theorem can_control_accepts_eperm:
  "kill_errno demo 1 = Some EPERM \<and> \<not> signalable demo 1 \<and>
   can_control_process demo 1 \<and>
   \<not> fst (set_process_suspended 1 True demo) \<and>
   process_exists_win32 win_demo 1000 \<and> \<not> can_control_process_win32 win_demo 1000"
  by code_simp

subsection \<open>The loop of get_process_tree\<close>

lemma scan_children_filter:
  "scan_children w current es = filter (\<lambda>q. get_parent_pid w q = current) (listed_pids es)"
proof (induction es)
  case Nil
  show ?case by simp
next
  case (Cons e es)
  obtain v endptr where st: "strtol (d_name e) = (v, endptr)"
    by (cases "strtol (d_name e)")
  show ?case
    using Cons st by (simp add: Let_def)
qed

lemma children_of_filter:
  "children_of w current = filter (\<lambda>q. get_parent_pid w q = current) (proc_listing w)"
  by (simp add: children_of_def proc_listing_def scan_children_filter split: option.splits)

lemma scan_children_win32_filter:
  "scan_children_win32 current es =
     map th32ProcessID (filter (\<lambda>e. th32ParentProcessID e = current) es)"
  by (induction es) simp_all

lemma children_of_win32_filter:
  "children_of_win32 ws current =
     map th32ProcessID (filter (\<lambda>e. th32ParentProcessID e = current) (snapshot_entries ws))"
  by (simp add: children_of_win32_def snapshot_entries_def scan_children_win32_filter
        split: option.splits)

lemma tree_loop_step:
  "tree_loop found tree (rest @ [c]) = tree_loop found (tree @ found c) (rest @ found c)"
  by (subst tree_loop.simps) simp

lemma tree_loop_done: "tree_loop found tree [] = Some tree"
  by (subst tree_loop.simps) simp

lemma tree_loop_leaf: "found p = [] \<Longrightarrow> tree_loop found [p] [p] = Some [p]"
  using tree_loop_step [of found "[p]" "[]" p] by (simp add: tree_loop_done)

lemma tree_loop_chain:
  assumes "found A = [B]" and "found B = [C]" and "found C = []"
  shows "tree_loop found [A] [A] = Some [A, B, C]"
proof -
  have "tree_loop found [A] ([] @ [A]) = tree_loop found [A, B] ([] @ [B])"
    using assms(1) by (simp only: tree_loop_step) simp
  also have "\<dots> = tree_loop found [A, B, C] ([] @ [C])"
    using assms(2) by (simp only: tree_loop_step) simp
  also have "\<dots> = tree_loop found [A, B, C] []"
    using assms(3) by (simp only: tree_loop_step) simp
  finally show ?thesis
    by (simp add: tree_loop_done)
qed

text \<open>The descendants of the processes waiting in \<open>to_check\<close> are appended to the tree
  one subtree after the other, provided the parent links lead upwards in some rank.\<close>

lemma tree_loop_kids:
  assumes "\<forall>k\<in>set ks. \<exists>ds. \<forall>tree rest.
             tree_loop found tree (rest @ [k]) = tree_loop found (tree @ ds) rest"
  shows "\<exists>ds. \<forall>tree rest. tree_loop found tree (rest @ ks) = tree_loop found (tree @ ds) rest"
  using assms
proof (induction ks rule: rev_induct)
  case Nil
  have "\<forall>tree rest. tree_loop found tree (rest @ []) = tree_loop found (tree @ []) rest"
    by simp
  then show ?case by blast
next
  case (snoc k ks)
  obtain ds1 where d1:
    "\<And>tree rest. tree_loop found tree (rest @ [k]) = tree_loop found (tree @ ds1) rest"
    using snoc.prems by auto
  obtain ds2 where d2:
    "\<And>tree rest. tree_loop found tree (rest @ ks) = tree_loop found (tree @ ds2) rest"
    using snoc.IH snoc.prems by auto
  have "tree_loop found tree (rest @ ks @ [k]) = tree_loop found (tree @ (ds1 @ ds2)) rest"
    for tree rest
    using d1 [of tree "rest @ ks"] d2 [of "tree @ ds1" rest] by simp
  then show ?case by blast
qed

lemma tree_loop_subtree:
  fixes rank :: "'p \<Rightarrow> nat"
  assumes rank: "\<And>c k. k \<in> set (found c) \<Longrightarrow> rank k < rank c"
  shows "\<exists>ds. \<forall>tree rest. tree_loop found tree (rest @ [c]) = tree_loop found (tree @ ds) rest"
proof (induction "rank c" arbitrary: c rule: less_induct)
  case less
  have "\<forall>k\<in>set (found c). \<exists>ds. \<forall>tree rest.
          tree_loop found tree (rest @ [k]) = tree_loop found (tree @ ds) rest"
    using less rank by blast
  then obtain ds where ds:
    "\<And>tree rest. tree_loop found tree (rest @ found c) = tree_loop found (tree @ ds) rest"
    using tree_loop_kids [of "found c" found] by blast
  have "tree_loop found tree (rest @ [c]) = tree_loop found (tree @ (found c @ ds)) rest"
    for tree rest
    using tree_loop_step [of found tree rest c] ds [of "tree @ found c" rest] by simp
  then show ?case by blast
qed

lemma tree_loop_returns:
  fixes rank :: "'p \<Rightarrow> nat"
  assumes rank: "\<And>c k. k \<in> set (found c) \<Longrightarrow> rank k < rank c"
  shows "\<exists>ds. tree_loop found [p] [p] = Some (p # ds)"
proof -
  obtain ds where
    "\<And>tree rest. tree_loop found tree (rest @ [p]) = tree_loop found (tree @ ds) rest"
    using tree_loop_subtree [where found = found and rank = rank and c = p, OF rank] by blast
  from this [of "[p]" "[]"] show ?thesis
    by (simp add: tree_loop_done)
qed

text \<open>A process that is found among its own children is never done with.\<close>

lemma tree_loop_self_parent:
  assumes ret: "tree_loop found tree to_check = Some res"
  shows "p \<in> set (found p) \<longrightarrow> p \<notin> set to_check"
proof (rule tree_loop.raw_induct
         [where P = "\<lambda>found tree to_check res. p \<in> set (found p) \<longrightarrow> p \<notin> set to_check"])
  show "tree_loop found tree to_check = Some res"
    by (rule ret)
next
  fix S :: "('a \<Rightarrow> 'a list) \<Rightarrow> 'a list \<Rightarrow> 'a list \<Rightarrow> 'a list option"
  fix found tree to_check res
  assume IH: "\<And>found tree to_check res. S found tree to_check = Some res \<Longrightarrow>
                 p \<in> set (found p) \<longrightarrow> p \<notin> set to_check"
    and body: "(if to_check = [] then Some tree
                else S found (tree @ found (last to_check))
                       (butlast to_check @ found (last to_check))) = Some res"
  show "p \<in> set (found p) \<longrightarrow> p \<notin> set to_check"
  proof (cases "to_check = []")
    case True
    then show ?thesis by simp
  next
    case False
    have "set (butlast to_check @ [last to_check]) = set (butlast to_check) \<union> {last to_check}"
      by simp
    then have tc: "set to_check = set (butlast to_check) \<union> {last to_check}"
      using append_butlast_last_id [OF False] by simp
    from body False
    have "S found (tree @ found (last to_check)) (butlast to_check @ found (last to_check)) =
            Some res"
      by simp
    from IH [OF this]
    have n: "p \<in> set (found p) \<longrightarrow>
               p \<notin> set (butlast to_check) \<and> p \<notin> set (found (last to_check))"
      by simp
    show ?thesis
    proof
      assume self: "p \<in> set (found p)"
      with n have "p \<notin> set (butlast to_check)" "p \<notin> set (found (last to_check))"
        by simp_all
      moreover from this self have "last to_check \<noteq> p"
        by auto
      ultimately show "p \<notin> set to_check"
        using tc by auto
    qed
  qed
qed

lemma tree_loop_diverges: "p \<in> set (found p) \<Longrightarrow> tree_loop found [p] [p] = None"
  using tree_loop_self_parent [of found "[p]" "[p]" _ p]
  by (cases "tree_loop found [p] [p]") auto

subsection \<open>The tree of a chain\<close>

lemma filter_single:
  "distinct xs \<Longrightarrow> b \<in> set xs \<Longrightarrow> P b \<Longrightarrow> \<forall>x\<in>set xs. x \<noteq> b \<longrightarrow> \<not> P x \<Longrightarrow>
   filter P xs = [b]"
proof (induction xs)
  case Nil
  then show ?case by simp
next
  case (Cons x xs)
  show ?case
  proof (cases "x = b")
    case True
    have "b \<notin> set xs"
      using Cons.prems(1) True by simp
    then have "filter P xs = []"
      using Cons.prems(4) by (auto simp add: filter_empty_conv)
    then show ?thesis
      using True Cons.prems(3) by simp
  next
    case False
    then show ?thesis
      using Cons by auto
  qed
qed

lemma chain_children:
  fixes par :: "'a \<Rightarrow> 'p"
  assumes listed: "distinct L" "b \<in> set L" "c \<in> set L"
      and chain: "par b = A" "par c = B"
      and abc: "A \<noteq> B" "B \<noteq> C" "A \<noteq> C"
      and others: "\<And>q. q \<in> set L \<Longrightarrow> q \<noteq> b \<Longrightarrow> q \<noteq> c \<Longrightarrow>
                     par q \<noteq> A \<and> par q \<noteq> B \<and> par q \<noteq> C"
  shows "filter (\<lambda>q. par q = A) L = [b]"
    and "filter (\<lambda>q. par q = B) L = [c]"
    and "filter (\<lambda>q. par q = C) L = []"
proof -
  show "filter (\<lambda>q. par q = A) L = [b]"
  proof (rule filter_single)
    show "\<forall>x\<in>set L. x \<noteq> b \<longrightarrow> par x \<noteq> A"
    proof (intro ballI impI)
      fix x assume x: "x \<in> set L" "x \<noteq> b"
      show "par x \<noteq> A"
      proof (cases "x = c")
        case True
        then show ?thesis using chain(2) abc(1) by simp
      next
        case False
        then show ?thesis using others [OF x(1) x(2)] by simp
      qed
    qed
  qed (use listed chain in simp_all)
  show "filter (\<lambda>q. par q = B) L = [c]"
  proof (rule filter_single)
    show "\<forall>x\<in>set L. x \<noteq> c \<longrightarrow> par x \<noteq> B"
    proof (intro ballI impI)
      fix x assume x: "x \<in> set L" "x \<noteq> c"
      show "par x \<noteq> B"
      proof (cases "x = b")
        case True
        then show ?thesis using chain(1) abc(1) by simp
      next
        case False
        then show ?thesis using others [OF x(1) False x(2)] by simp
      qed
    qed
  qed (use listed chain in simp_all)
  have "par x \<noteq> C" if x: "x \<in> set L" for x
  proof (cases "x = b \<or> x = c")
    case True
    then show ?thesis using chain abc by auto
  next
    case False
    then show ?thesis using others [OF x] by simp
  qed
  then show "filter (\<lambda>q. par q = C) L = []"
    by (simp add: filter_empty_conv)
qed

lemma get_process_tree_chain_linux:
  assumes dir: "proc_dir w = Some es"
      and listed: "distinct (listed_pids es)" "B \<in> set (listed_pids es)"
                  "C \<in> set (listed_pids es)"
      and chain: "get_parent_pid w B = A" "get_parent_pid w C = B"
      and abc: "A \<noteq> B" "B \<noteq> C" "A \<noteq> C"
      and others: "\<forall>q\<in>set (listed_pids es). q \<noteq> B \<and> q \<noteq> C \<longrightarrow>
                     get_parent_pid w q \<noteq> A \<and> get_parent_pid w q \<noteq> B \<and>
                     get_parent_pid w q \<noteq> C"
  shows "get_process_tree w A = Some [A, B, C]"
proof -
  have l: "proc_listing w = listed_pids es"
    using dir by (simp add: proc_listing_def)
  have o: "\<And>q. q \<in> set (listed_pids es) \<Longrightarrow> q \<noteq> B \<Longrightarrow> q \<noteq> C \<Longrightarrow>
             get_parent_pid w q \<noteq> A \<and> get_parent_pid w q \<noteq> B \<and> get_parent_pid w q \<noteq> C"
    using others by blast
  note cc = chain_children [where par = "get_parent_pid w", OF listed chain abc o]
  have "tree_loop (children_of w) [A] [A] = Some [A, B, C]"
    by (rule tree_loop_chain) (simp_all add: children_of_filter l cc)
  then show ?thesis
    by (simp add: get_process_tree_def)
qed

lemma get_process_tree_chain_win32:
  assumes snap: "snapshot ws = Some es"
      and listed: "distinct (map th32ProcessID es)" "eb \<in> set es" "ec \<in> set es"
      and chain: "th32ParentProcessID eb = a" "th32ParentProcessID ec = th32ProcessID eb"
      and abc: "a \<noteq> th32ProcessID eb" "th32ProcessID eb \<noteq> th32ProcessID ec"
               "a \<noteq> th32ProcessID ec"
      and others: "\<forall>e\<in>set es. e \<noteq> eb \<and> e \<noteq> ec \<longrightarrow>
                     th32ParentProcessID e \<noteq> a \<and>
                     th32ParentProcessID e \<noteq> th32ProcessID eb \<and>
                     th32ParentProcessID e \<noteq> th32ProcessID ec"
  shows "get_process_tree_win32 ws a = Some [a, th32ProcessID eb, th32ProcessID ec]"
proof -
  have l: "snapshot_entries ws = es"
    using snap by (simp add: snapshot_entries_def)
  have d: "distinct es"
    using listed(1) by (simp add: distinct_map)
  have o: "\<And>e. e \<in> set es \<Longrightarrow> e \<noteq> eb \<Longrightarrow> e \<noteq> ec \<Longrightarrow>
             th32ParentProcessID e \<noteq> a \<and> th32ParentProcessID e \<noteq> th32ProcessID eb \<and>
             th32ParentProcessID e \<noteq> th32ProcessID ec"
    using others by blast
  note cc = chain_children [where par = th32ParentProcessID, OF d listed(2,3) chain abc o]
  have "tree_loop (children_of_win32 ws) [a] [a] = Some [a, th32ProcessID eb, th32ProcessID ec]"
    by (rule tree_loop_chain) (simp_all add: children_of_win32_filter l cc)
  then show ?thesis
    by (simp add: get_process_tree_win32_def)
qed

text \<open>
  Claim C8. Let the processes be listed once each, among them \<open>B\<close> and \<open>C\<close>, let \<open>A\<close>,
  \<open>B\<close>, \<open>C\<close> be three processes with \<open>B\<close>'s parent \<open>A\<close> and \<open>C\<close>'s parent \<open>B\<close>, and let no
  other listed process have \<open>A\<close>, \<open>B\<close> or \<open>C\<close> as its parent. Then, in whatever order the
  processes are listed, \<open>get_process_tree A\<close> returns \<open>A\<close>, \<open>B\<close>, \<open>C\<close>: the root and its
  descendants, each once, and nothing else. The first half is the Linux branch, over
  the entries of \<^verbatim>\<open>/proc\<close> and \<open>get_parent_pid\<close>; the second the Windows branch, over
  the entries \<open>eb\<close> and \<open>ec\<close> of the snapshot.
\<close>

theorem get_process_tree_chain:
  "(proc_dir w = Some es \<and> distinct (listed_pids es) \<and>
    B \<in> set (listed_pids es) \<and> C \<in> set (listed_pids es) \<and>
    get_parent_pid w B = A \<and> get_parent_pid w C = B \<and> A \<noteq> B \<and> B \<noteq> C \<and> A \<noteq> C \<and>
    (\<forall>q\<in>set (listed_pids es). q \<noteq> B \<and> q \<noteq> C \<longrightarrow>
       get_parent_pid w q \<noteq> A \<and> get_parent_pid w q \<noteq> B \<and> get_parent_pid w q \<noteq> C)
    \<longrightarrow> get_process_tree w A = Some [A, B, C]) \<and>
   (snapshot ws = Some wes \<and> distinct (map th32ProcessID wes) \<and>
    eb \<in> set wes \<and> ec \<in> set wes \<and>
    th32ParentProcessID eb = a \<and> th32ParentProcessID ec = th32ProcessID eb \<and>
    a \<noteq> th32ProcessID eb \<and> th32ProcessID eb \<noteq> th32ProcessID ec \<and> a \<noteq> th32ProcessID ec \<and>
    (\<forall>e\<in>set wes. e \<noteq> eb \<and> e \<noteq> ec \<longrightarrow>
       th32ParentProcessID e \<noteq> a \<and> th32ParentProcessID e \<noteq> th32ProcessID eb \<and>
       th32ParentProcessID e \<noteq> th32ProcessID ec)
    \<longrightarrow> get_process_tree_win32 ws a = Some [a, th32ProcessID eb, th32ProcessID ec])"
  using get_process_tree_chain_linux [of w es B C A]
    get_process_tree_chain_win32 [of ws wes eb ec a]
  by simp

lemma demo_listing:
  "listed_pids demo_dir = [1, 101, 205, 206, 310, 410, 411, 510, 511, 512]"
  by code_simp

lemma demo_parents:
  "get_parent_pid demo 1 = 0" "get_parent_pid demo 101 = 1" "get_parent_pid demo 205 = 101"
  "get_parent_pid demo 206 = 205" "get_parent_pid demo 310 = 1" "get_parent_pid demo 410 = 1"
  "get_parent_pid demo 411 = 1" "get_parent_pid demo 510 = 1" "get_parent_pid demo 511 = 1"
  "get_parent_pid demo 512 = 511"
  by code_simp+

text \<open>The witness: 101, 205, 206 in \<open>demo\<close>, and 880, 1000, 1200 in a snapshot of three
  entries.\<close>

theorem get_process_tree_chain_witness:
  "get_parent_pid demo 205 = 101 \<and> get_parent_pid demo 206 = 205 \<and>
   get_process_tree demo 101 = Some [101, 205, 206] \<and>
   get_process_tree_win32 win_chain 880 = Some [880, 1000, 1200]"
proof -
  have linux: "proc_dir demo = Some demo_dir \<and> distinct (listed_pids demo_dir) \<and>
    205 \<in> set (listed_pids demo_dir) \<and> 206 \<in> set (listed_pids demo_dir) \<and>
    get_parent_pid demo 205 = 101 \<and> get_parent_pid demo 206 = 205 \<and>
    (101::int) \<noteq> 205 \<and> (205::int) \<noteq> 206 \<and> (101::int) \<noteq> 206 \<and>
    (\<forall>q\<in>set (listed_pids demo_dir). q \<noteq> 205 \<and> q \<noteq> 206 \<longrightarrow>
       get_parent_pid demo q \<noteq> 101 \<and> get_parent_pid demo q \<noteq> 205 \<and>
       get_parent_pid demo q \<noteq> 206)"
    by (simp add: demo_fields demo_listing demo_parents)
  let ?eb = "\<lparr>th32ProcessID = 1000, th32ParentProcessID = 880, szExeFile = ''notepad.exe''\<rparr>"
  let ?ec = "\<lparr>th32ProcessID = 1200, th32ParentProcessID = 1000, szExeFile = ''notepad.exe''\<rparr>"
  let ?es = "[?eb, ?ec, \<lparr>th32ProcessID = 4, th32ParentProcessID = 0, szExeFile = ''System''\<rparr>]"
  have win: "snapshot win_chain = Some ?es \<and> distinct (map th32ProcessID ?es) \<and>
    ?eb \<in> set ?es \<and> ?ec \<in> set ?es \<and>
    th32ParentProcessID ?eb = 880 \<and> th32ParentProcessID ?ec = th32ProcessID ?eb \<and>
    880 \<noteq> th32ProcessID ?eb \<and> th32ProcessID ?eb \<noteq> th32ProcessID ?ec \<and>
    880 \<noteq> th32ProcessID ?ec \<and>
    (\<forall>e\<in>set ?es. e \<noteq> ?eb \<and> e \<noteq> ?ec \<longrightarrow>
       th32ParentProcessID e \<noteq> 880 \<and> th32ParentProcessID e \<noteq> th32ProcessID ?eb \<and>
       th32ParentProcessID e \<noteq> th32ProcessID ?ec)"
    by (simp add: win_chain_def win_demo_def)
  show ?thesis
    using linux win
      get_process_tree_chain [of demo demo_dir 205 206 101 win_chain ?es ?eb ?ec 880]
    by simp
qed

subsection \<open>The root comes first\<close>

text \<open>
  \<open>get_process_tree p\<close> returns exactly \<open>[p]\<close> when no listed process has \<open>p\<close> as its
  parent, whether \<open>p\<close> is a process or not. It returns a sequence that starts with \<open>p\<close>
  whenever the parent links of the listed processes have no cycle: every listed
  process ranks below its parent, for some rank. Both hold on either platform.
\<close>

theorem get_process_tree_root_first:
  fixes rank :: "pid_t \<Rightarrow> nat" and wrank :: "nat \<Rightarrow> nat"
  shows
  "((\<forall>q\<in>set (proc_listing w). get_parent_pid w q \<noteq> p) \<longrightarrow>
      get_process_tree w p = Some [p]) \<and>
   ((\<forall>q\<in>set (proc_listing w). rank q < rank (get_parent_pid w q)) \<longrightarrow>
      (\<exists>ds. get_process_tree w p = Some (p # ds))) \<and>
   ((\<forall>e\<in>set (snapshot_entries ws). th32ParentProcessID e \<noteq> r) \<longrightarrow>
      get_process_tree_win32 ws r = Some [r]) \<and>
   ((\<forall>e\<in>set (snapshot_entries ws). wrank (th32ProcessID e) < wrank (th32ParentProcessID e)) \<longrightarrow>
      (\<exists>ds. get_process_tree_win32 ws r = Some (r # ds)))"
proof (intro conjI impI)
  assume "\<forall>q\<in>set (proc_listing w). get_parent_pid w q \<noteq> p"
  then have "children_of w p = []"
    by (simp add: children_of_filter filter_empty_conv)
  then show "get_process_tree w p = Some [p]"
    unfolding get_process_tree_def by (rule tree_loop_leaf)
next
  assume up: "\<forall>q\<in>set (proc_listing w). rank q < rank (get_parent_pid w q)"
  have "rank k < rank c" if "k \<in> set (children_of w c)" for c k
    using that up by (auto simp add: children_of_filter)
  then show "\<exists>ds. get_process_tree w p = Some (p # ds)"
    unfolding get_process_tree_def by (rule tree_loop_returns)
next
  assume "\<forall>e\<in>set (snapshot_entries ws). th32ParentProcessID e \<noteq> r"
  then have "children_of_win32 ws r = []"
    by (simp add: children_of_win32_filter filter_empty_conv)
  then show "get_process_tree_win32 ws r = Some [r]"
    unfolding get_process_tree_win32_def by (rule tree_loop_leaf)
next
  assume up: "\<forall>e\<in>set (snapshot_entries ws).
                wrank (th32ProcessID e) < wrank (th32ParentProcessID e)"
  have "wrank k < wrank c" if "k \<in> set (children_of_win32 ws c)" for c k
    using that up by (auto simp add: children_of_win32_filter)
  then show "\<exists>ds. get_process_tree_win32 ws r = Some (r # ds)"
    unfolding get_process_tree_win32_def by (rule tree_loop_returns)
qed

lemma demo_proc_listing:
  "proc_listing demo = [1, 101, 205, 206, 310, 410, 411, 510, 511, 512]"
  by (simp add: proc_listing_def demo_fields demo_listing)

lemma win_user_entries:
  "snapshot_entries win_user =
     [\<lparr>th32ProcessID = 1000, th32ParentProcessID = 880, szExeFile = ''notepad.exe''\<rparr>,
      \<lparr>th32ProcessID = 1200, th32ParentProcessID = 1000, szExeFile = ''notepad.exe''\<rparr>,
      \<lparr>th32ProcessID = 1300, th32ParentProcessID = 1000, szExeFile = ''notepad.exe''\<rparr>]"
  by (simp add: snapshot_entries_def win_user_def win_demo_def)

theorem get_process_tree_root_first_witness:
  "get_process_tree demo 999 = Some [999] \<and>
   (\<exists>ds. get_process_tree demo 1 = Some (1 # ds)) \<and>
   get_process_tree_win32 win_user 999 = Some [999] \<and>
   (\<exists>ds. get_process_tree_win32 win_user 1000 = Some (1000 # ds))"
proof -
  have a: "\<forall>q\<in>set (proc_listing demo). get_parent_pid demo q \<noteq> 999"
    by (simp add: demo_proc_listing demo_parents)
  have b: "\<forall>q\<in>set (proc_listing demo). demo_rank q < demo_rank (get_parent_pid demo q)"
    by (simp add: demo_proc_listing demo_parents demo_rank_def)
  have c: "\<forall>e\<in>set (snapshot_entries win_user). th32ParentProcessID e \<noteq> 999"
    by (simp add: win_user_entries)
  have d: "\<forall>e\<in>set (snapshot_entries win_user).
             win_demo_rank (th32ProcessID e) < win_demo_rank (th32ParentProcessID e)"
    by (simp add: win_user_entries win_demo_rank_def)
  show ?thesis
    using a b c d
      get_process_tree_root_first [of demo 999 demo_rank win_user 999 win_demo_rank]
      get_process_tree_root_first [of demo 1 demo_rank win_user 1000 win_demo_rank]
    by blast
qed

lemma win_demo_idle: "0 \<in> set (children_of_win32 win_demo 0)"
  by (simp add: children_of_win32_def win_demo_def)

text \<open>
  Claim C10, evaluated on the code. The claim has \<open>get_process_tree\<close> return, root
  first, for every process identifier. A Toolhelp snapshot lists the idle process, 0,
  with parent 0, as that of \<open>win_demo\<close> does. Asked for the tree of 0, the loop finds 0
  among the children of 0, pushes it onto \<^verbatim>\<open>to_check\<close> again each time round, and
  does not return: it keeps no record of the processes it has expanded.
\<close>

theorem get_process_tree_idle_process:
  "\<lparr>th32ProcessID = 0, th32ParentProcessID = 0, szExeFile = ''[System Process]''\<rparr>
     \<in> set (snapshot_entries win_demo) \<and>
   get_process_tree_win32 win_demo 0 = None"
  using tree_loop_diverges [of 0 "children_of_win32 win_demo", OF win_demo_idle]
  by (simp add: get_process_tree_win32_def snapshot_entries_def win_demo_def)

subsection \<open>Looking up the entry points once\<close>

lemma init_nt_functions_initialized: "initialized (init_nt_functions ws)"
  by (simp add: init_nt_functions_def)

lemma init_nt_functions_again: "initialized ws \<Longrightarrow> init_nt_functions ws = ws"
  by (simp add: init_nt_functions_def)

lemma init_nt_functions_funpow: "(init_nt_functions ^^ Suc n) ws = init_nt_functions ws"
proof (induction n)
  case 0
  show ?case by simp
next
  case (Suc n)
  have "(init_nt_functions ^^ Suc (Suc n)) ws = init_nt_functions ((init_nt_functions ^^ Suc n) ws)"
    by simp
  also have "\<dots> = init_nt_functions (init_nt_functions ws)"
    using Suc by simp
  also have "\<dots> = init_nt_functions ws"
    by (rule init_nt_functions_again) (rule init_nt_functions_initialized)
  finally show ?case .
qed

lemma resolutions_lookup_nt: "resolutions (lookup_nt ws) = Suc (resolutions ws)"
  by (simp add: resolutions_def lookup_nt_def wemit_def Let_def)

lemma resolutions_enable_debug_privilege:
  "resolutions (snd (enable_debug_privilege ws)) = resolutions ws"
  by (simp add: resolutions_def enable_debug_privilege_def wemit_def)

lemma resolutions_init_nt_functions:
  "resolutions (init_nt_functions ws) =
     (if initialized ws then resolutions ws else Suc (resolutions ws))"
proof -
  have "resolutions (w\<lparr>initialized := True\<rparr>) = resolutions w" for w
    by (simp add: resolutions_def)
  then show ?thesis
    by (simp add: init_nt_functions_def resolutions_enable_debug_privilege
          resolutions_lookup_nt)
qed

text \<open>One thread that runs alone does what \<open>init_nt_functions\<close> does.\<close>

lemma single_thread_is_init_nt_functions:
  "run_schedule [0, 0, 0, 0] ([AtTest], ws) = ([Returned], init_nt_functions ws)"
  by (simp add: init_nt_functions_def)

text \<open>
  Claim C9, as the code has it. Calls of \<open>init_nt_functions\<close> made one after the other
  look the entry points up exactly once: the first call does and sets the flag, and
  every later call returns at once, so the state after any number of calls is the
  state after the first, with the same resolved or failed pointers. Nothing in the
  function guards a concurrent first use.
\<close>

theorem init_nt_functions_once:
  "(init_nt_functions ^^ Suc n) ws = init_nt_functions ws \<and>
   initialized (init_nt_functions ws) \<and>
   resolutions ((init_nt_functions ^^ Suc n) ws) =
     (if initialized ws then resolutions ws else resolutions ws + 1)"
  by (simp only: init_nt_functions_funpow init_nt_functions_initialized
        resolutions_init_nt_functions) simp

text \<open>
  The claim as stated has the lookup happen once when several threads call at the same
  time. Two threads that both test the flag before either sets it both look the entry
  points up: with the threads taking turns, both return and the lookup has run twice.
\<close>

lemma resolutions_assign: "resolutions (ws\<lparr>initialized := True\<rparr>) = resolutions ws"
  by (simp add: resolutions_def)

lemma two_threads_race:
  assumes "\<not> initialized ws"
  shows "fst (run_schedule [0, Suc 0, 0, Suc 0, 0, Suc 0, 0, Suc 0] ([AtTest, AtTest], ws)) =
           [Returned, Returned]"
    and "resolutions (snd (run_schedule [0, Suc 0, 0, Suc 0, 0, Suc 0, 0, Suc 0]
                             ([AtTest, AtTest], ws))) = resolutions ws + 2"
  using assms
  by (simp_all add: resolutions_lookup_nt resolutions_enable_debug_privilege resolutions_assign)

theorem init_nt_functions_two_threads:
  "\<not> initialized win_demo \<and> resolutions win_demo = 0 \<and>
   fst (run_schedule [0, 1, 0, 1, 0, 1, 0, 1] ([AtTest, AtTest], win_demo)) =
     [Returned, Returned] \<and>
   resolutions (snd (run_schedule [0, 1, 0, 1, 0, 1, 0, 1] ([AtTest, AtTest], win_demo))) = 2"
proof -
  have fresh: "\<not> initialized win_demo" "resolutions win_demo = 0"
    by (simp_all add: win_demo_def resolutions_def)
  show ?thesis
    using fresh two_threads_race [OF fresh(1)] by simp
qed

end
